theory Spec2Isabelle
  imports Main "HOL-Library.AList"
begin

section \<open>Numbers and dates of the script\<close>

text \<open>
  The script \<^verbatim>\<open>calendar_embed/app.js\<close> computes with JavaScript numbers and \<^verbatim>\<open>Date\<close>
  objects. Every number it handles on the paths modelled here is an integer or NaN, so a
  number is an \<open>int option\<close> with \<open>None\<close> for NaN. A \<^verbatim>\<open>Date\<close> is its time value, the
  milliseconds since 1970-01-01T00:00:00Z, and the invalid date is the time value NaN.
  Relational operators coerce a \<^verbatim>\<open>Date\<close> to its time value, and every comparison with
  NaN is false.
\<close>

type_synonym num = "int option"

type_synonym date = "int option"

fun num_le :: "num \<Rightarrow> num \<Rightarrow> bool" where
  "num_le (Some x) (Some y) = (x \<le> y)"
| "num_le _ _ = False"

fun num_lt :: "num \<Rightarrow> num \<Rightarrow> bool" where
  "num_lt (Some x) (Some y) = (x < y)"
| "num_lt _ _ = False"

definition num_ge :: "num \<Rightarrow> num \<Rightarrow> bool" where
  "num_ge a b = num_le b a"

definition num_gt :: "num \<Rightarrow> num \<Rightarrow> bool" where
  "num_gt a b = num_lt b a"

fun num_sub :: "num \<Rightarrow> num \<Rightarrow> num" where
  "num_sub (Some x) (Some y) = Some (x - y)"
| "num_sub _ _ = None"

fun num_add :: "num \<Rightarrow> num \<Rightarrow> num" where
  "num_add (Some x) (Some y) = Some (x + y)"
| "num_add _ _ = None"

fun num_mul :: "num \<Rightarrow> num \<Rightarrow> num" where
  "num_mul (Some x) (Some y) = Some (x * y)"
| "num_mul _ _ = None"

definition msPerDay :: int where
  "msPerDay = 24 * 60 * 60 * 1000"

text \<open>
  \<^verbatim>\<open>Math.round(x / (24 * 60 * 60 * 1000))\<close> for an integer \<open>x\<close>: the integer nearest to the
  quotient, a tie going up, which is the floor of the quotient plus one half. The quotient
  of the source is a double; it is exact whenever \<open>x\<close> is a whole number of days, which is
  the case for every pair of dates the script builds (all come from \<^verbatim>\<open>Date.UTC\<close> at
  midnight and from \<^verbatim>\<open>setUTCDate\<close>).
\<close>

fun roundDays :: "num \<Rightarrow> num" where
  "roundDays (Some x) = Some ((2 * x + msPerDay) div (2 * msPerDay))"
| "roundDays None = None"

text \<open>\<^verbatim>\<open>TimeClip\<close> of ECMAScript: a time value beyond 8.64e15 ms is NaN.\<close>

definition timeClip :: "int \<Rightarrow> date" where
  "timeClip t = (if \<bar>t\<bar> \<le> 8640000000000000 then Some t else None)"

subsection \<open>\<^verbatim>\<open>Date.UTC\<close> on integer arguments\<close>

text \<open>
  \<^verbatim>\<open>Date.UTC(year, month, day)\<close> follows ECMAScript: a year from 0 to 99 means 1900 plus
  that year, \<^verbatim>\<open>MakeDay\<close> carries whole years out of the month number and counts the days
  from the epoch to the first of the month, the day of the month is added to that linearly,
  and the result goes through \<^verbatim>\<open>TimeClip\<close>. \<^verbatim>\<open>MakeDay\<close> is exact integer arithmetic here;
  ECMAScript lets it give NaN when the first of the month already lies outside the range
  of time values, which takes a year beyond 275760.
\<close>

definition MakeFullYear :: "int \<Rightarrow> int" where
  "MakeFullYear y = (if 0 \<le> y \<and> y \<le> 99 then 1900 + y else y)"

definition DayFromYear :: "int \<Rightarrow> int" where
  "DayFromYear y =
     365 * (y - 1970) + (y - 1969) div 4 - (y - 1901) div 100 + (y - 1601) div 400"

definition InLeapYear :: "int \<Rightarrow> bool" where
  "InLeapYear y = ((y mod 4 = 0 \<and> y mod 100 \<noteq> 0) \<or> y mod 400 = 0)"

definition daysInMonth :: "int \<Rightarrow> int \<Rightarrow> int" where
  "daysInMonth y mn =
     (if mn = 1 then (if InLeapYear y then 29 else 28)
      else if mn = 3 \<or> mn = 5 \<or> mn = 8 \<or> mn = 10 then 30 else 31)"

definition dayWithinYear :: "int \<Rightarrow> int \<Rightarrow> int" where
  "dayWithinYear y mn = sum_list (map (daysInMonth y) [0..mn - 1])"

definition MakeDay :: "int \<Rightarrow> int \<Rightarrow> int \<Rightarrow> int" where
  "MakeDay year month dt =
     (let ym = year + month div 12; mn = month mod 12
      in DayFromYear ym + dayWithinYear ym mn + dt - 1)"

definition makeUTCDate :: "int \<Rightarrow> int \<Rightarrow> int \<Rightarrow> date" where
  "makeUTCDate year month day = timeClip (MakeDay (MakeFullYear year) month day * msPerDay)"

subsection \<open>\<^verbatim>\<open>getUTCDate\<close>, \<^verbatim>\<open>setUTCDate\<close> and \<^verbatim>\<open>addDays\<close>\<close>

text \<open>
  The civil date of a time value, after ECMAScript: \<^verbatim>\<open>Day\<close>, \<^verbatim>\<open>TimeWithinDay\<close>,
  \<^verbatim>\<open>YearFromTime\<close> (the last year that starts at or before the time value; computed as
  engines do, from an estimate by the mean year length that is moved by one year where it
  misses), \<^verbatim>\<open>MonthFromTime\<close> and \<^verbatim>\<open>DateFromTime\<close> from the day within the year.
  What \<^verbatim>\<open>addDays\<close> returns does not depend on how the year and the month are found: the
  day of the month it reads and the day it writes back are counted from the same first of
  the month (lemma \<open>addDays_eq\<close>).
\<close>

definition Day :: "int \<Rightarrow> int" where
  "Day t = t div msPerDay"

definition TimeWithinDay :: "int \<Rightarrow> int" where
  "TimeWithinDay t = t mod msPerDay"

definition DaysInYear :: "int \<Rightarrow> int" where
  "DaysInYear y = (if InLeapYear y then 366 else 365)"

definition TimeFromYear :: "int \<Rightarrow> int" where
  "TimeFromYear y = msPerDay * DayFromYear y"

definition YearFromTime :: "int \<Rightarrow> int" where
  "YearFromTime t =
     (let y = (t * 10000) div (msPerDay * 3652425) + 1970
      in if t < TimeFromYear y then y - 1
         else if TimeFromYear y + msPerDay * DaysInYear y \<le> t then y + 1
         else y)"

definition DayWithinYear :: "int \<Rightarrow> int" where
  "DayWithinYear t = Day t - DayFromYear (YearFromTime t)"

definition MonthFromTime :: "int \<Rightarrow> int" where
  "MonthFromTime t =
     (let d = DayWithinYear t;
          leap = (if InLeapYear (YearFromTime t) then 1 else 0)
      in if d < 31 then 0
         else if d < 59 + leap then 1
         else if d < 90 + leap then 2
         else if d < 120 + leap then 3
         else if d < 151 + leap then 4
         else if d < 181 + leap then 5
         else if d < 212 + leap then 6
         else if d < 243 + leap then 7
         else if d < 273 + leap then 8
         else if d < 304 + leap then 9
         else if d < 334 + leap then 10
         else 11)"

definition DateFromTime :: "int \<Rightarrow> int" where
  "DateFromTime t =
     DayWithinYear t - dayWithinYear (YearFromTime t) (MonthFromTime t) + 1"

definition MakeDate :: "int \<Rightarrow> int \<Rightarrow> int" where
  "MakeDate day time = day * msPerDay + time"

fun getUTCDate :: "date \<Rightarrow> num" where
  "getUTCDate (Some t) = Some (DateFromTime t)"
| "getUTCDate None = None"

text \<open>
  \<^verbatim>\<open>setUTCDate(dt)\<close> rebuilds the time value from the year and the month of the date it
  is called on, the new day of the month and the time within the day.
\<close>

fun setUTCDate :: "date \<Rightarrow> num \<Rightarrow> date" where
  "setUTCDate (Some t) (Some dt) =
     timeClip (MakeDate (MakeDay (YearFromTime t) (MonthFromTime t) dt) (TimeWithinDay t))"
| "setUTCDate _ _ = None"

definition addDays :: "date \<Rightarrow> int \<Rightarrow> date" where
  "addDays dateObj days = setUTCDate dateObj (num_add (getUTCDate dateObj) (Some days))"

subsection \<open>Parsing a date string\<close>

text \<open>
  \<^verbatim>\<open>value.split('-')\<close>: the pieces between the dashes; a string without a dash is one
  piece, the empty string too.
\<close>

fun split_dash :: "string \<Rightarrow> string list" where
  "split_dash [] = [[]]"
| "split_dash (c # cs) =
     (if c = CHR ''-'' then [] # split_dash cs
      else (case split_dash cs of [] \<Rightarrow> [[c]] | p # ps \<Rightarrow> (c # p) # ps))"

text \<open>
  \<^verbatim>\<open>Number\<close> on one piece. The data file writes dates as decimal digits between dashes,
  and that is the fragment modelled: a string of decimal digits is its value, the empty
  string is 0, and every other piece is NaN here (JavaScript also reads padded, signed,
  fractional, exponent and radix-prefixed literals, which the data file never holds).
\<close>

definition isDigit :: "char \<Rightarrow> bool" where
  "isDigit c = (c \<in> set ''0123456789'')"

definition digitValue :: "char \<Rightarrow> int" where
  "digitValue c = int (of_char c) - 48"

definition Number :: "string \<Rightarrow> num" where
  "Number s =
     (if list_all isDigit s then Some (foldl (\<lambda>acc c. acc * 10 + digitValue c) 0 s)
      else None)"

text \<open>
  \<^verbatim>\<open>parseDate\<close> destructures the first three pieces; a missing piece is \<^verbatim>\<open>undefined\<close>,
  which \<^verbatim>\<open>Date.UTC\<close> turns into NaN, as it does a NaN piece.
\<close>

definition parseDate :: "string \<Rightarrow> date" where
  "parseDate v =
     (case map Number (split_dash v) of
        Some year # Some month # Some day # _ \<Rightarrow> makeUTCDate year (month - 1) day
      | _ \<Rightarrow> None)"

definition diffDays :: "date \<Rightarrow> date \<Rightarrow> num" where
  "diffDays start_d end_d = roundDays (num_sub end_d start_d)"

definition halfIndex :: "date \<Rightarrow> date \<Rightarrow> string \<Rightarrow> num" where
  "halfIndex dateObj rangeStart half =
     (let diffDays = roundDays (num_sub dateObj rangeStart)
      in num_add (num_mul diffDays (Some 2)) (Some (if half = ''pm'' then 2 else 1)))"

section \<open>Events and the span of an event in a window\<close>

text \<open>
  An event of the data file. The fields \<^verbatim>\<open>type\<close> and \<^verbatim>\<open>end\<close> are written \<open>type'\<close> and
  \<open>end'\<close>. The dates are the strings of the file; a JavaScript \<^verbatim>\<open>Set\<close> of strings
  is the list of its members in insertion order.
\<close>

record event =
  uid :: string
  type' :: string
  start :: string
  end' :: string
  summary :: string

definition Set_has :: "'a list \<Rightarrow> 'a \<Rightarrow> bool" where
  "Set_has s x = (x \<in> set s)"

definition Set_add :: "'a \<Rightarrow> 'a list \<Rightarrow> 'a list" where
  "Set_add x s = (if x \<in> set s then s else s @ [x])"

record span =
  startHalf :: num
  endHalf :: num

text \<open>The clipping of an event to the window, lines 163 and 164 (and 577 and 578).\<close>

definition displayStart_of :: "date \<Rightarrow> date \<Rightarrow> date" where
  "displayStart_of eventStart rangeStart =
     (if num_lt eventStart rangeStart then rangeStart else eventStart)"

definition displayEnd_of :: "date \<Rightarrow> date \<Rightarrow> date" where
  "displayEnd_of eventEnd rangeEndExclusive =
     (if num_gt eventEnd rangeEndExclusive then rangeEndExclusive else eventEnd)"

definition computeEventSpan :: "event \<Rightarrow> date \<Rightarrow> date \<Rightarrow> string list \<Rightarrow> span option" where
  "computeEventSpan event rangeStart rangeEndExclusive reservationCheckouts =
     (let eventStart = parseDate (start event);
          eventEnd = parseDate (end' event)
      in if num_le eventEnd rangeStart \<or> num_ge eventStart rangeEndExclusive then None
         else
           let displayStart = displayStart_of eventStart rangeStart;
               displayEnd = displayEnd_of eventEnd rangeEndExclusive;
               days = roundDays (num_sub rangeEndExclusive rangeStart)
           in if type' event = ''closed'' then
                let startsOnCheckout = Set_has reservationCheckouts (start event);
                    startHalf = halfIndex displayStart rangeStart
                                  (if startsOnCheckout then ''pm'' else ''am'');
                    endHalf = (if num_ge eventEnd rangeEndExclusive
                               then num_add (num_mul days (Some 2)) (Some 1)
                               else halfIndex displayEnd rangeStart ''am'')
                in Some \<lparr>startHalf = startHalf, endHalf = endHalf\<rparr>
              else
                let startHalf = (if num_lt eventStart rangeStart
                                 then halfIndex rangeStart rangeStart ''am''
                                 else halfIndex displayStart rangeStart ''pm'');
                    endHalf = (if num_ge eventEnd rangeEndExclusive
                               then num_add (num_mul days (Some 2)) (Some 1)
                               else num_add (halfIndex displayEnd rangeStart ''am'') (Some 1))
                in Some \<lparr>startHalf = startHalf, endHalf = endHalf\<rparr>)"

section \<open>The rolling-window renderer\<close>

text \<open>
  \<^verbatim>\<open>renderCalendar\<close>, for one property: the three sets \<^verbatim>\<open>reservationStarts\<close>,
  \<^verbatim>\<open>reservationEnds\<close> and \<^verbatim>\<open>reservationCheckouts\<close> it fills from the events that are
  not closed periods (lines 303 to 312), the quick turns (lines 314 to 316), and for each
  event the span that becomes a pill (lines 321 to 325): no pill when \<^verbatim>\<open>computeEventSpan\<close>
  gives null or when \<^verbatim>\<open>endHalf <= startHalf\<close>.
\<close>

record reservationSets =
  starts_set :: "string list"
  ends_set :: "string list"
  checkouts_set :: "string list"

definition renderCalendar_collect :: "event \<Rightarrow> reservationSets \<Rightarrow> reservationSets" where
  "renderCalendar_collect event s =
     (if type' event = ''closed'' then s
      else \<lparr>starts_set = Set_add (start event) (starts_set s),
            ends_set = Set_add (end' event) (ends_set s),
            checkouts_set = Set_add (end' event) (checkouts_set s)\<rparr>)"

definition renderCalendar_sets :: "event list \<Rightarrow> reservationSets" where
  "renderCalendar_sets events =
     fold renderCalendar_collect events
       \<lparr>starts_set = [], ends_set = [], checkouts_set = []\<rparr>"

definition renderCalendar_quickTurns :: "event list \<Rightarrow> string list" where
  "renderCalendar_quickTurns events =
     (let s = renderCalendar_sets events
      in filter (\<lambda>dateStr. Set_has (ends_set s) dateStr) (starts_set s))"

definition renderCalendar_pill :: "event \<Rightarrow> date \<Rightarrow> date \<Rightarrow> string list \<Rightarrow> span option" where
  "renderCalendar_pill event rangeStart rangeEndExclusive reservationCheckouts =
     (case computeEventSpan event rangeStart rangeEndExclusive reservationCheckouts of
        None \<Rightarrow> None
      | Some span \<Rightarrow> if num_le (endHalf span) (startHalf span) then None else Some span)"

section \<open>The month renderer\<close>

text \<open>
  \<^verbatim>\<open>renderSingleProperty\<close>. Its two maps take a date string to the set of the uids of the
  reservations that start, or end, on it (lines 497 to 512); a \<^verbatim>\<open>Map\<close> is an association
  list in insertion order. \<open>Map_addTo\<close> is the pair of statements \<^verbatim>\<open>if (!m.has(k))
  m.set(k, new Set()); m.get(k).add(x)\<close>. The filter of line 503 keeps every event, a
  \<^verbatim>\<open>Date\<close> object being truthy whatever its time value.
\<close>

definition Map_addTo :: "'k \<Rightarrow> 'v \<Rightarrow> ('k \<times> 'v list) list \<Rightarrow> ('k \<times> 'v list) list" where
  "Map_addTo k x m =
     AList.update k (Set_add x (case map_of m k of None \<Rightarrow> [] | Some s \<Rightarrow> s)) m"

record reservationMaps =
  startsByDate :: "(string \<times> string list) list"
  endsByDate :: "(string \<times> string list) list"

definition renderSingleProperty_collect :: "event \<Rightarrow> reservationMaps \<Rightarrow> reservationMaps" where
  "renderSingleProperty_collect event m =
     (if type' event \<noteq> ''closed''
      then \<lparr>startsByDate = Map_addTo (start event) (uid event) (startsByDate m),
            endsByDate = Map_addTo (end' event) (uid event) (endsByDate m)\<rparr>
      else m)"

definition renderSingleProperty_maps :: "event list \<Rightarrow> reservationMaps" where
  "renderSingleProperty_maps events =
     fold renderSingleProperty_collect events \<lparr>startsByDate = [], endsByDate = []\<rparr>"

definition renderSingleProperty_quickTurns :: "event list \<Rightarrow> string list" where
  "renderSingleProperty_quickTurns events =
     (let m = renderSingleProperty_maps events
      in fold (\<lambda>(dateStr, startIds) quickTurns.
                 case map_of (endsByDate m) dateStr of
                   None \<Rightarrow> quickTurns
                 | Some endIds \<Rightarrow>
                     if list_ex (\<lambda>id. \<not> Set_has endIds id) startIds
                     then Set_add dateStr quickTurns else quickTurns)
           (startsByDate m) [])"

definition renderSingleProperty_checkouts :: "event list \<Rightarrow> string list" where
  "renderSingleProperty_checkouts events = map fst (endsByDate (renderSingleProperty_maps events))"

text \<open>
  The pill of an event in the week row that starts at \<open>weekStart\<close>, lines 573 to 597:
  \<open>renderSingleProperty_cols\<close> is the pair \<^verbatim>\<open>colStart\<close>, \<^verbatim>\<open>colEnd\<close> when the event
  reaches the week, and \<open>renderSingleProperty_pill\<close> drops it when
  \<^verbatim>\<open>colEnd <= colStart\<close>.
\<close>

definition renderSingleProperty_cols :: "event \<Rightarrow> date \<Rightarrow> string list \<Rightarrow> span option" where
  "renderSingleProperty_cols event weekStart reservationCheckouts =
     (let startDate = parseDate (start event);
          endDate = parseDate (end' event)
      in if num_le endDate weekStart \<or> num_ge startDate (addDays weekStart 7) then None
         else
           let rangeStart = weekStart;
               rangeEndExclusive = addDays weekStart 7;
               displayStart = displayStart_of startDate rangeStart;
               displayEnd = displayEnd_of endDate rangeEndExclusive
           in if num_le displayEnd displayStart then None
              else if type' event = ''closed'' then
                let startsOnCheckout = Set_has reservationCheckouts (start event)
                in Some \<lparr>startHalf = halfIndex displayStart rangeStart
                                        (if startsOnCheckout then ''pm'' else ''am''),
                         endHalf = (if num_ge endDate rangeEndExclusive then Some (7 * 2 + 1)
                                    else halfIndex displayEnd rangeStart ''am'')\<rparr>
              else
                Some \<lparr>startHalf = (if num_lt startDate rangeStart
                                    then halfIndex rangeStart rangeStart ''am''
                                    else halfIndex displayStart rangeStart ''pm''),
                       endHalf = (if num_ge endDate rangeEndExclusive then Some (7 * 2 + 1)
                                  else num_add (halfIndex displayEnd rangeStart ''am'')
                                         (Some 1))\<rparr>)"

definition renderSingleProperty_pill :: "event \<Rightarrow> date \<Rightarrow> string list \<Rightarrow> span option" where
  "renderSingleProperty_pill event weekStart reservationCheckouts =
     (case renderSingleProperty_cols event weekStart reservationCheckouts of
        None \<Rightarrow> None
      | Some cols \<Rightarrow> if num_le (endHalf cols) (startHalf cols) then None else Some cols)"

section \<open>The quick turn as the specification words it\<close>

text \<open>
  A date is a quick turn when some reservation checks out on it and a reservation with
  another uid arrives on it. A reservation is an event that is not a closed period, as in
  both renderers.
\<close>

definition differentBookingTurn :: "event list \<Rightarrow> string \<Rightarrow> bool" where
  "differentBookingTurn events d =
     list_ex (\<lambda>a. type' a \<noteq> ''closed'' \<and> end' a = d \<and>
        list_ex (\<lambda>b. type' b \<noteq> ''closed'' \<and> start b = d \<and> uid a \<noteq> uid b) events) events"

section \<open>Day arithmetic\<close>

lemma msPerDay_pos: "0 < msPerDay"
  by (simp add: msPerDay_def)

lemma roundDays_shift:
  "roundDays (Some (x + n * msPerDay)) = Some ((2 * x + msPerDay) div (2 * msPerDay) + n)"
proof -
  have "2 * (x + n * msPerDay) + msPerDay = (2 * x + msPerDay) + n * (2 * msPerDay)"
    by (simp add: algebra_simps)
  moreover have "((2 * x + msPerDay) + n * (2 * msPerDay)) div (2 * msPerDay)
      = n + (2 * x + msPerDay) div (2 * msPerDay)"
    using msPerDay_pos by (intro div_mult_self1) simp
  ultimately show ?thesis
    by (simp only: roundDays.simps) simp
qed

lemma roundDays_whole: "roundDays (Some (n * msPerDay)) = Some n"
  using roundDays_shift [of 0 n] msPerDay_pos by simp

lemma timeClip_Some: "timeClip t = Some u \<Longrightarrow> u = t"
  by (simp add: timeClip_def split: if_splits)

lemma makeUTCDate_whole: "makeUTCDate y m d = Some t \<Longrightarrow> msPerDay dvd t"
  by (auto simp: makeUTCDate_def dest!: timeClip_Some)

lemma parseDate_whole: "parseDate v = Some t \<Longrightarrow> msPerDay dvd t"
  by (auto simp: parseDate_def split: list.splits option.splits dest: makeUTCDate_whole)

lemma div_step:
  fixes x k :: int
  assumes "1 < k"
  shows "(x + 1) div k = x div k + (if (x + 1) mod k = 0 then 1 else 0)"
proof -
  define q where "q = x div k"
  define r where "r = x mod k"
  have x: "x = k * q + r" by (simp add: q_def r_def)
  have r: "0 \<le> r" "r < k" using assms by (simp_all add: r_def)
  show ?thesis
  proof (cases "r + 1 = k")
    case True
    have e: "x + 1 = k * (q + 1) + 0" using x True by (simp add: algebra_simps)
    have "(x + 1) div k = q + 1"
      using e assms by (intro int_div_pos_eq [where r = 0]) simp_all
    moreover have "(x + 1) mod k = 0"
      using e assms by (intro int_mod_pos_eq [where q = "q + 1"]) simp_all
    ultimately show ?thesis by (simp add: q_def)
  next
    case False
    then have lt: "r + 1 < k" using r by linarith
    have e: "x + 1 = k * q + (r + 1)" using x by simp
    have "(x + 1) div k = q"
      using e r lt by (intro int_div_pos_eq [where r = "r + 1"]) simp_all
    moreover have "(x + 1) mod k = r + 1"
      using e r lt by (intro int_mod_pos_eq [where q = q]) simp_all
    ultimately show ?thesis using r by (simp add: q_def)
  qed
qed

lemma mod_sub_multiple:
  fixes y k c :: int
  shows "(y - c * k) mod k = y mod k"
  using mod_mult_self1 [of y "- c" k] by simp

lemma leap_mods:
  fixes y :: int
  shows "((y - 1969 + 1) mod 4 = 0) = (y mod 4 = 0)"
    and "((y - 1901 + 1) mod 100 = 0) = (y mod 100 = 0)"
    and "((y - 1601 + 1) mod 400 = 0) = (y mod 400 = 0)"
  using mod_sub_multiple [of y 492 4] mod_sub_multiple [of y 19 100]
    mod_sub_multiple [of y 4 400] by simp_all

lemma leap_chain:
  fixes y :: int
  shows "y mod 400 = 0 \<Longrightarrow> y mod 100 = 0" and "y mod 100 = 0 \<Longrightarrow> y mod 4 = 0"
proof -
  have "(100::int) dvd 400" "(4::int) dvd 100" by simp_all
  then show "y mod 400 = 0 \<Longrightarrow> y mod 100 = 0" and "y mod 100 = 0 \<Longrightarrow> y mod 4 = 0"
    by (auto simp only: mod_eq_0_iff_dvd intro: dvd_trans)
qed

lemma DayFromYear_Suc:
  "DayFromYear (y + 1) = DayFromYear y + (if InLeapYear y then 366 else 365)"
proof -
  have a: "(y + 1 - 1969) div 4 = (y - 1969) div 4 + (if y mod 4 = 0 then 1 else 0)"
    using div_step [of 4 "y - 1969"] leap_mods(1) [of y] by (simp add: algebra_simps)
  have b: "(y + 1 - 1901) div 100 = (y - 1901) div 100 + (if y mod 100 = 0 then 1 else 0)"
    using div_step [of 100 "y - 1901"] leap_mods(2) [of y] by (simp add: algebra_simps)
  have c: "(y + 1 - 1601) div 400 = (y - 1601) div 400 + (if y mod 400 = 0 then 1 else 0)"
    using div_step [of 400 "y - 1601"] leap_mods(3) [of y] by (simp add: algebra_simps)
  show ?thesis
    unfolding DayFromYear_def InLeapYear_def a b c
    using leap_chain [of y] by auto
qed

lemma mod_step:
  fixes x k :: int
  assumes "1 < k"
  shows "(x + 1) mod k = (if (x + 1) mod k = 0 then 0 else x mod k + 1)"
    and "((x + 1) mod k = 0) = (x mod k = k - 1)"
proof -
  define q where "q = x div k"
  define r where "r = x mod k"
  have x: "x = k * q + r" by (simp add: q_def r_def)
  have r: "0 \<le> r" "r < k" using assms by (simp_all add: r_def)
  have m: "(x + 1) mod k = (if r + 1 = k then 0 else r + 1)"
  proof (cases "r + 1 = k")
    case True
    have e: "x + 1 = k * (q + 1) + 0" using x True by (simp add: algebra_simps)
    have "(x + 1) mod k = 0"
      using e assms by (intro int_mod_pos_eq [where q = "q + 1"]) simp_all
    then show ?thesis using True by simp
  next
    case False
    then have lt: "r + 1 < k" using r by linarith
    have e: "x + 1 = k * q + (r + 1)" using x by simp
    have "(x + 1) mod k = r + 1"
      using e r lt by (intro int_mod_pos_eq [where q = q]) simp_all
    then show ?thesis using False by simp
  qed
  show "((x + 1) mod k = 0) = (x mod k = k - 1)"
    using m r by (auto simp: r_def split: if_splits)
  show "(x + 1) mod k = (if (x + 1) mod k = 0 then 0 else x mod k + 1)"
    using m r by (auto simp: r_def split: if_splits)
qed

lemma month_step:
  fixes m :: int
  shows "(m + 1) div 12 = m div 12 + (if m mod 12 = 11 then 1 else 0)"
    and "(m + 1) mod 12 = (if m mod 12 = 11 then 0 else m mod 12 + 1)"
  using div_step [of 12 m] mod_step [of 12 m] by simp_all

lemma dayWithinYear_0: "dayWithinYear y 0 = 0"
  by (simp add: dayWithinYear_def)

lemma dayWithinYear_step:
  "0 \<le> mn \<Longrightarrow> dayWithinYear y (mn + 1) = dayWithinYear y mn + daysInMonth y mn"
  by (simp add: dayWithinYear_def upto_rec2 [of 0 mn])

lemma dayWithinYear_11:
  "dayWithinYear y 11 + daysInMonth y 11 = (if InLeapYear y then 366 else 365)"
proof -
  have "[0..10::int] = [0, 1, 2, 3, 4, 5, 6, 7, 8, 9, 10]"
    by code_simp
  then show ?thesis
    by (simp add: dayWithinYear_def daysInMonth_def)
qed

lemma MakeDay_next_month:
  "MakeDay y (m + 1) dt = MakeDay y m dt + daysInMonth (y + m div 12) (m mod 12)"
proof (cases "m mod 12 = 11")
  case True
  then show ?thesis
    using dayWithinYear_11 [of "y + m div 12"] DayFromYear_Suc [of "y + m div 12"]
    by (simp add: MakeDay_def Let_def month_step dayWithinYear_0 add.assoc)
next
  case False
  then show ?thesis
    using dayWithinYear_step [of "m mod 12" "y + m div 12"]
    by (simp add: MakeDay_def Let_def month_step)
qed

lemma MonthFromTime_range: "0 \<le> MonthFromTime t \<and> MonthFromTime t \<le> 11"
  by (simp add: MonthFromTime_def Let_def)

lemma MakeDay_own_month:
  "MakeDay (YearFromTime t) (MonthFromTime t) (DateFromTime t + k) = Day t + k"
proof -
  have "MonthFromTime t div 12 = 0" and "MonthFromTime t mod 12 = MonthFromTime t"
    using MonthFromTime_range [of t] by simp_all
  then show ?thesis
    by (simp add: MakeDay_def Let_def DateFromTime_def DayWithinYear_def)
qed

lemma addDays_eq: "addDays (Some t) k = timeClip (t + k * msPerDay)"
proof -
  have "MakeDate (Day t + k) (TimeWithinDay t) = t + k * msPerDay"
    by (simp add: MakeDate_def Day_def TimeWithinDay_def algebra_simps)
  then show ?thesis
    by (simp add: addDays_def MakeDay_own_month)
qed

lemma addDays_None: "addDays None k = None"
  by (simp add: addDays_def)

lemma halfIndex_window_shift:
  "halfIndex (Some d) (Some r) half =
     num_add (halfIndex (Some d) (Some (r + n * msPerDay)) half) (Some (2 * n))"
proof -
  have "d - r = (d - (r + n * msPerDay)) + n * msPerDay" by simp
  then have "roundDays (Some (d - r))
      = Some ((2 * (d - (r + n * msPerDay)) + msPerDay) div (2 * msPerDay) + n)"
    using roundDays_shift [of "d - (r + n * msPerDay)" n] by simp
  then show ?thesis
    by (simp add: halfIndex_def algebra_simps)
qed

lemma makeUTCDate_next_month:
  assumes "makeUTCDate y m dd = Some a" and "makeUTCDate y (m + 1) dd = Some b"
  shows "b = a + daysInMonth (MakeFullYear y + m div 12) (m mod 12) * msPerDay"
proof -
  have "a = MakeDay (MakeFullYear y) m dd * msPerDay"
    and "b = MakeDay (MakeFullYear y) (m + 1) dd * msPerDay"
    using assms by (auto simp: makeUTCDate_def dest: timeClip_Some)
  then show ?thesis
    by (simp only: MakeDay_next_month distrib_right)
qed

section \<open>The sets of the renderers and the span in whole days\<close>

lemma set_Set_add: "set (Set_add x s) = insert x (set s)"
  by (auto simp: Set_add_def)

lemma renderCalendar_fold_sets:
  "set (starts_set (fold renderCalendar_collect evs s)) =
     set (starts_set s) \<union> start ` {r \<in> set evs. type' r \<noteq> ''closed''}
   \<and> set (ends_set (fold renderCalendar_collect evs s)) =
     set (ends_set s) \<union> end' ` {r \<in> set evs. type' r \<noteq> ''closed''}
   \<and> set (checkouts_set (fold renderCalendar_collect evs s)) =
     set (checkouts_set s) \<union> end' ` {r \<in> set evs. type' r \<noteq> ''closed''}"
proof (induction evs arbitrary: s)
  case Nil
  show ?case by simp
next
  case (Cons e evs)
  show ?case
    using Cons.IH [of "renderCalendar_collect e s"]
    by (auto simp: renderCalendar_collect_def set_Set_add)
qed

lemma renderCalendar_checkouts:
  "set (checkouts_set (renderCalendar_sets events)) =
     end' ` {r \<in> set events. type' r \<noteq> ''closed''}"
  by (simp add: renderCalendar_sets_def renderCalendar_fold_sets)

lemma map_of_Map_addTo:
  "map_of (Map_addTo k x m) =
     (map_of m)(k \<mapsto> Set_add x (case map_of m k of None \<Rightarrow> [] | Some s \<Rightarrow> s))"
  by (simp add: Map_addTo_def update_conv')

lemma keys_Map_addTo: "fst ` set (Map_addTo k x m) = insert k (fst ` set m)"
  by (simp add: Map_addTo_def dom_update)

lemma renderSingleProperty_fold_keys:
  "fst ` set (startsByDate (fold renderSingleProperty_collect evs m)) =
     fst ` set (startsByDate m) \<union> start ` {r \<in> set evs. type' r \<noteq> ''closed''}
   \<and> fst ` set (endsByDate (fold renderSingleProperty_collect evs m)) =
     fst ` set (endsByDate m) \<union> end' ` {r \<in> set evs. type' r \<noteq> ''closed''}"
proof (induction evs arbitrary: m)
  case Nil
  show ?case by simp
next
  case (Cons e evs)
  show ?case
    using Cons.IH [of "renderSingleProperty_collect e m"]
    by (auto simp: renderSingleProperty_collect_def keys_Map_addTo)
qed

lemma renderSingleProperty_checkouts_set:
  "set (renderSingleProperty_checkouts events) =
     end' ` {r \<in> set events. type' r \<noteq> ''closed''}"
  using renderSingleProperty_fold_keys [of events "\<lparr>startsByDate = [], endsByDate = []\<rparr>"]
  by (simp add: renderSingleProperty_checkouts_def renderSingleProperty_maps_def)

lemma whole_daysE:
  assumes "msPerDay dvd t"
  obtains n where "t = n * msPerDay"
  using assms by (auto simp: dvd_def mult.commute)

lemma days_less: "(a * msPerDay < b * msPerDay) = (a < b)"
  using msPerDay_pos by simp

lemma days_le: "(a * msPerDay \<le> b * msPerDay) = (a \<le> b)"
  using msPerDay_pos by simp

lemma roundDays_diff: "roundDays (Some (a * msPerDay - b * msPerDay)) = Some (a - b)"
  using roundDays_whole [of "a - b"] by (simp add: left_diff_distrib)

lemma halfIndex_days:
  "halfIndex (Some (d * msPerDay)) (Some (r * msPerDay)) half =
     Some ((d - r) * 2 + (if half = ''pm'' then 2 else 1))"
  by (simp only: halfIndex_def Let_def num_sub.simps roundDays_diff num_mul.simps num_add.simps)

lemma ranges_disjoint:
  fixes S E rs re :: int
  assumes "rs < re"
  shows "({S..<E} \<inter> {rs..<re} = {}) = (E \<le> S \<or> E \<le> rs \<or> re \<le> S)"
proof
  assume e: "{S..<E} \<inter> {rs..<re} = {}"
  show "E \<le> S \<or> E \<le> rs \<or> re \<le> S"
  proof (rule ccontr)
    assume "\<not> (E \<le> S \<or> E \<le> rs \<or> re \<le> S)"
    then have "max S rs \<in> {S..<E} \<inter> {rs..<re}"
      using assms by auto
    with e show False by blast
  qed
next
  assume "E \<le> S \<or> E \<le> rs \<or> re \<le> S"
  then show "{S..<E} \<inter> {rs..<re} = {}" by auto
qed

lemma computeEventSpan_days:
  assumes "parseDate (start ev) = Some (s * msPerDay)"
    and "parseDate (end' ev) = Some (e * msPerDay)"
  shows "computeEventSpan ev (Some (a * msPerDay)) (Some (b * msPerDay)) co =
     (if e \<le> a \<or> b \<le> s then None
      else if type' ev = ''closed'' then
        Some \<lparr>startHalf = Some ((max s a - a) * 2 + (if start ev \<in> set co then 2 else 1)),
              endHalf = Some (if b \<le> e then (b - a) * 2 + 1 else (e - a) * 2 + 1)\<rparr>
      else
        Some \<lparr>startHalf = Some (if s < a then 1 else (s - a) * 2 + 2),
              endHalf = Some (if b \<le> e then (b - a) * 2 + 1 else (e - a) * 2 + 2)\<rparr>)"
  using assms
  by (simp add: computeEventSpan_def Let_def num_ge_def num_gt_def displayStart_of_def
      displayEnd_of_def days_less days_le halfIndex_days roundDays_diff Set_has_def max_def
      del: roundDays.simps)

section \<open>The quick turns of the two renderers\<close>

lemma renderCalendar_quickTurns_set:
  "set (renderCalendar_quickTurns events) =
     start ` {r \<in> set events. type' r \<noteq> ''closed''} \<inter>
     end' ` {r \<in> set events. type' r \<noteq> ''closed''}"
  using renderCalendar_fold_sets [of events
      "\<lparr>starts_set = [], ends_set = [], checkouts_set = []\<rparr>"]
  by (auto simp: renderCalendar_quickTurns_def renderCalendar_sets_def Let_def Set_has_def)

lemma ids_Map_addTo:
  "(case map_of (Map_addTo k x m) d of None \<Rightarrow> {} | Some s \<Rightarrow> set s) =
     (case map_of m d of None \<Rightarrow> {} | Some s \<Rightarrow> set s) \<union> (if d = k then {x} else {})"
  by (auto simp: map_of_Map_addTo set_Set_add split: option.splits)

lemma distinct_Map_addTo:
  "distinct (map fst m) \<Longrightarrow> distinct (map fst (Map_addTo k x m))"
  by (simp add: Map_addTo_def distinct_update)

lemma renderSingleProperty_fold_ids:
  "(case map_of (startsByDate (fold renderSingleProperty_collect evs m)) d of
      None \<Rightarrow> {} | Some s \<Rightarrow> set s) =
     (case map_of (startsByDate m) d of None \<Rightarrow> {} | Some s \<Rightarrow> set s) \<union>
     uid ` {r \<in> set evs. type' r \<noteq> ''closed'' \<and> start r = d}
   \<and> (case map_of (endsByDate (fold renderSingleProperty_collect evs m)) d of
      None \<Rightarrow> {} | Some s \<Rightarrow> set s) =
     (case map_of (endsByDate m) d of None \<Rightarrow> {} | Some s \<Rightarrow> set s) \<union>
     uid ` {r \<in> set evs. type' r \<noteq> ''closed'' \<and> end' r = d}"
proof (induction evs arbitrary: m)
  case Nil
  show ?case by simp
next
  case (Cons e evs)
  show ?case
  proof (cases "type' e = ''closed''")
    case True
    then show ?thesis
      using Cons.IH [of m] by (auto simp: renderSingleProperty_collect_def)
  next
    case False
    then show ?thesis
      using Cons.IH [of "renderSingleProperty_collect e m"]
      by (auto simp: renderSingleProperty_collect_def ids_Map_addTo)
  qed
qed

lemma renderSingleProperty_fold_distinct:
  "distinct (map fst (startsByDate m)) \<Longrightarrow>
     distinct (map fst (startsByDate (fold renderSingleProperty_collect evs m)))"
proof (induction evs arbitrary: m)
  case Nil
  then show ?case by simp
next
  case (Cons e evs)
  have "distinct (map fst (startsByDate (renderSingleProperty_collect e m)))"
    using Cons.prems by (simp add: renderSingleProperty_collect_def distinct_Map_addTo)
  then show ?case
    using Cons.IH [of "renderSingleProperty_collect e m"] by simp
qed

lemma quickTurns_fold_set:
  "set (fold (\<lambda>(dateStr, startIds) quickTurns.
                 case map_of E dateStr of
                   None \<Rightarrow> quickTurns
                 | Some endIds \<Rightarrow>
                     if list_ex (\<lambda>id. \<not> Set_has endIds id) startIds
                     then Set_add dateStr quickTurns else quickTurns) al acc) =
     set acc \<union> {d. \<exists>sids eids. (d, sids) \<in> set al \<and> map_of E d = Some eids \<and>
                    (\<exists>i \<in> set sids. i \<notin> set eids)}"
proof (induction al arbitrary: acc)
  case Nil
  show ?case by simp
next
  case (Cons p al)
  obtain k v where p: "p = (k, v)" by (cases p)
  show ?case
    unfolding p fold_simps Cons.IH
    by (auto simp: set_Set_add Set_has_def list_ex_iff split: option.splits)
qed

lemma renderSingleProperty_quickTurns_iff:
  "(d \<in> set (renderSingleProperty_quickTurns events)) =
     ((\<exists>b \<in> set events. type' b \<noteq> ''closed'' \<and> start b = d \<and>
          uid b \<notin> uid ` {a \<in> set events. type' a \<noteq> ''closed'' \<and> end' a = d})
      \<and> (\<exists>a \<in> set events. type' a \<noteq> ''closed'' \<and> end' a = d))"
proof -
  define S where "S = startsByDate (renderSingleProperty_maps events)"
  define E where "E = endsByDate (renderSingleProperty_maps events)"
  note ids = renderSingleProperty_fold_ids [of events "\<lparr>startsByDate = [], endsByDate = []\<rparr>" d]
  have idsS: "(case map_of S d of None \<Rightarrow> {} | Some s \<Rightarrow> set s) =
      uid ` {r \<in> set events. type' r \<noteq> ''closed'' \<and> start r = d}"
    using ids by (simp add: S_def renderSingleProperty_maps_def)
  have idsE: "(case map_of E d of None \<Rightarrow> {} | Some s \<Rightarrow> set s) =
      uid ` {r \<in> set events. type' r \<noteq> ''closed'' \<and> end' r = d}"
    using ids by (simp add: E_def renderSingleProperty_maps_def)
  have keysE: "fst ` set E = end' ` {r \<in> set events. type' r \<noteq> ''closed''}"
    using renderSingleProperty_fold_keys [of events "\<lparr>startsByDate = [], endsByDate = []\<rparr>"]
    by (simp add: E_def renderSingleProperty_maps_def)
  have distS: "distinct (map fst S)"
    using renderSingleProperty_fold_distinct [of "\<lparr>startsByDate = [], endsByDate = []\<rparr>" events]
    by (simp add: S_def renderSingleProperty_maps_def)
  have qt: "(d \<in> set (renderSingleProperty_quickTurns events)) =
      (\<exists>sids eids. (d, sids) \<in> set S \<and> map_of E d = Some eids \<and>
         (\<exists>i \<in> set sids. i \<notin> set eids))"
    by (simp add: renderSingleProperty_quickTurns_def Let_def quickTurns_fold_set S_def E_def)
  show ?thesis
    unfolding qt
  proof
    assume "\<exists>sids eids. (d, sids) \<in> set S \<and> map_of E d = Some eids \<and>
         (\<exists>i \<in> set sids. i \<notin> set eids)"
    then obtain sids eids i where in_S: "(d, sids) \<in> set S" and e: "map_of E d = Some eids"
      and i: "i \<in> set sids" "i \<notin> set eids"
      by blast
    have s: "map_of S d = Some sids"
      using distS in_S by (rule map_of_is_SomeI)
    have "i \<in> uid ` {r \<in> set events. type' r \<noteq> ''closed'' \<and> start r = d}"
      using idsS s i(1) by simp
    then obtain b where b: "b \<in> set events" "type' b \<noteq> ''closed''" "start b = d" "i = uid b"
      by blast
    have "uid b \<notin> uid ` {a \<in> set events. type' a \<noteq> ''closed'' \<and> end' a = d}"
      using idsE e i(2) b(4) by simp
    moreover have "d \<in> fst ` set E"
      using e by (metis map_of_eq_None_iff option.distinct(1))
    then have "\<exists>a \<in> set events. type' a \<noteq> ''closed'' \<and> end' a = d"
      unfolding keysE by blast
    ultimately show "(\<exists>b \<in> set events. type' b \<noteq> ''closed'' \<and> start b = d \<and>
          uid b \<notin> uid ` {a \<in> set events. type' a \<noteq> ''closed'' \<and> end' a = d})
      \<and> (\<exists>a \<in> set events. type' a \<noteq> ''closed'' \<and> end' a = d)"
      using b by blast
  next
    assume r: "(\<exists>b \<in> set events. type' b \<noteq> ''closed'' \<and> start b = d \<and>
          uid b \<notin> uid ` {a \<in> set events. type' a \<noteq> ''closed'' \<and> end' a = d})
      \<and> (\<exists>a \<in> set events. type' a \<noteq> ''closed'' \<and> end' a = d)"
    then obtain b where b: "b \<in> set events" "type' b \<noteq> ''closed''" "start b = d"
      and nb: "uid b \<notin> uid ` {a \<in> set events. type' a \<noteq> ''closed'' \<and> end' a = d}"
      by blast
    have "uid b \<in> (case map_of S d of None \<Rightarrow> {} | Some s \<Rightarrow> set s)"
      unfolding idsS using b by blast
    then obtain sids where s: "map_of S d = Some sids" and i: "uid b \<in> set sids"
      by (cases "map_of S d") auto
    have in_S: "(d, sids) \<in> set S"
      using s by (rule map_of_SomeD)
    have "d \<in> fst ` set E"
      unfolding keysE using r by force
    then obtain eids where e: "map_of E d = Some eids"
      by (metis map_of_eq_None_iff not_Some_eq)
    have "uid b \<notin> set eids"
      using idsE e nb by simp
    with in_S e i show "\<exists>sids eids. (d, sids) \<in> set S \<and> map_of E d = Some eids \<and>
         (\<exists>i \<in> set sids. i \<notin> set eids)"
      by blast
  qed
qed

lemma differentBookingTurn_iff:
  "differentBookingTurn events d =
     (\<exists>a \<in> set events. \<exists>b \<in> set events. type' a \<noteq> ''closed'' \<and> end' a = d \<and>
        type' b \<noteq> ''closed'' \<and> start b = d \<and> uid a \<noteq> uid b)"
  by (auto simp: differentBookingTurn_def list_ex_iff)

lemma month_turn_has_pair:
  assumes "d \<in> set (renderSingleProperty_quickTurns events)"
  shows "differentBookingTurn events d"
proof -
  from assms obtain b a where b: "b \<in> set events" "type' b \<noteq> ''closed''" "start b = d"
    and nb: "uid b \<notin> uid ` {c \<in> set events. type' c \<noteq> ''closed'' \<and> end' c = d}"
    and a: "a \<in> set events" "type' a \<noteq> ''closed''" "end' a = d"
    unfolding renderSingleProperty_quickTurns_iff by auto
  have "uid a \<in> uid ` {c \<in> set events. type' c \<noteq> ''closed'' \<and> end' c = d}"
    using a by simp
  with nb have "uid a \<noteq> uid b" by auto
  with a b show ?thesis
    unfolding differentBookingTurn_iff by auto
qed

lemma pair_turn_rolling:
  assumes "differentBookingTurn events d"
  shows "d \<in> set (renderCalendar_quickTurns events)"
proof -
  from assms obtain a b where "a \<in> set events" "type' a \<noteq> ''closed''" "end' a = d"
    and "b \<in> set events" "type' b \<noteq> ''closed''" "start b = d"
    unfolding differentBookingTurn_iff by auto
  then show ?thesis
    unfolding renderCalendar_quickTurns_set by force
qed

lemma rolling_turn_iff:
  assumes wf1: "\<forall>r \<in> set events. type' r \<noteq> ''closed'' \<longrightarrow> start r \<noteq> end' r"
    and wf2: "\<forall>a \<in> set events. \<forall>b \<in> set events.
       type' a \<noteq> ''closed'' \<and> type' b \<noteq> ''closed'' \<and> uid a = uid b \<longrightarrow> a = b"
  shows "(d \<in> set (renderCalendar_quickTurns events)) = differentBookingTurn events d"
proof
  assume "d \<in> set (renderCalendar_quickTurns events)"
  then obtain b a where b: "b \<in> set events" "type' b \<noteq> ''closed''" "start b = d"
    and a: "a \<in> set events" "type' a \<noteq> ''closed''" "end' a = d"
    unfolding renderCalendar_quickTurns_set by auto
  have "start b \<noteq> end' b" using wf1 b(1,2) by blast
  then have "a \<noteq> b" using a b by auto
  have "uid a \<noteq> uid b"
  proof
    assume "uid a = uid b"
    then have "a = b" using wf2 a(1,2) b(1,2) by blast
    with \<open>a \<noteq> b\<close> show False by simp
  qed
  with a b show "differentBookingTurn events d"
    unfolding differentBookingTurn_iff by auto
next
  assume "differentBookingTurn events d"
  then obtain a b where a: "a \<in> set events" "type' a \<noteq> ''closed''" "end' a = d"
    and b: "b \<in> set events" "type' b \<noteq> ''closed''" "start b = d"
    unfolding differentBookingTurn_iff by auto
  then show "d \<in> set (renderCalendar_quickTurns events)"
    unfolding renderCalendar_quickTurns_set by force
qed

lemma month_turn_iff:
  assumes wf1: "\<forall>r \<in> set events. type' r \<noteq> ''closed'' \<longrightarrow> start r \<noteq> end' r"
    and wf2: "\<forall>a \<in> set events. \<forall>b \<in> set events.
       type' a \<noteq> ''closed'' \<and> type' b \<noteq> ''closed'' \<and> uid a = uid b \<longrightarrow> a = b"
  shows "(d \<in> set (renderSingleProperty_quickTurns events)) = differentBookingTurn events d"
proof
  assume "d \<in> set (renderSingleProperty_quickTurns events)"
  then show "differentBookingTurn events d" by (rule month_turn_has_pair)
next
  assume "differentBookingTurn events d"
  then obtain a b where a: "a \<in> set events" "type' a \<noteq> ''closed''" "end' a = d"
    and b: "b \<in> set events" "type' b \<noteq> ''closed''" "start b = d"
    unfolding differentBookingTurn_iff by auto
  have nb: "uid b \<notin> uid ` {c \<in> set events. type' c \<noteq> ''closed'' \<and> end' c = d}"
  proof
    assume "uid b \<in> uid ` {c \<in> set events. type' c \<noteq> ''closed'' \<and> end' c = d}"
    then obtain c where c: "c \<in> set events" "type' c \<noteq> ''closed''" "end' c = d"
      "uid b = uid c"
      by auto
    have "b = c" using wf2 b(1,2) c(1,2,4) by blast
    then have "start b = end' b" using b c by simp
    moreover have "start b \<noteq> end' b" using wf1 b(1,2) by blast
    ultimately show False by simp
  qed
  have "\<exists>b \<in> set events. type' b \<noteq> ''closed'' \<and> start b = d \<and>
          uid b \<notin> uid ` {a \<in> set events. type' a \<noteq> ''closed'' \<and> end' a = d}"
    using b nb by (intro bexI [of _ b]) simp_all
  moreover have "\<exists>a \<in> set events. type' a \<noteq> ''closed'' \<and> end' a = d"
    using a by (intro bexI [of _ a]) simp_all
  ultimately show "d \<in> set (renderSingleProperty_quickTurns events)"
    unfolding renderSingleProperty_quickTurns_iff by (rule conjI)
qed

section \<open>The properties of the specification, C1 to C10\<close>

text \<open>
  C1. A reservation that lies inside the window, arriving on \<open>S\<close> at or after the window
  start and checking out on \<open>E\<close> before the window end, with \<open>S < E\<close>, is projected to
  the interval from \<open>halfIndex(S, rangeStart, PM)\<close> to \<open>halfIndex(E, rangeStart, AM) + 1\<close>:
  occupancy begins at the PM slot of the arrival day and includes the AM slot of the
  checkout day.
\<close>

theorem reservation_inside_window:
  assumes "type' ev = ''reservation''"
    and "parseDate (start ev) = Some S" and "parseDate (end' ev) = Some E"
    and "rangeStart \<le> S" and "S < E" and "E < rangeEndExclusive"
  shows "computeEventSpan ev (Some rangeStart) (Some rangeEndExclusive) checkoutDates =
           Some \<lparr>startHalf = halfIndex (Some S) (Some rangeStart) ''pm'',
                 endHalf = num_add (halfIndex (Some E) (Some rangeStart) ''am'') (Some 1)\<rparr>"
  using assms
  by (simp add: computeEventSpan_def num_ge_def num_gt_def displayStart_of_def displayEnd_of_def)

theorem reservation_inside_window_witness:
  "computeEventSpan
     \<lparr>uid = ''r1'', type' = ''reservation'', start = ''2026-01-30'', end' = ''2026-02-01'',
      summary = ''''\<rparr>
     (Some 1769644800000) (Some 1770076800000) []
   = Some \<lparr>startHalf = Some 4, endHalf = Some 8\<rparr>"
proof -
  have s: "parseDate ''2026-01-30'' = Some 1769731200000" by code_simp
  have e: "parseDate ''2026-02-01'' = Some 1769904000000" by code_simp
  have h1: "halfIndex (Some 1769731200000) (Some 1769644800000) ''pm'' = Some 4" by code_simp
  have h2: "halfIndex (Some 1769904000000) (Some 1769644800000) ''am'' = Some 7" by code_simp
  show ?thesis
    using reservation_inside_window [where S = 1769731200000 and E = 1769904000000
        and rangeStart = 1769644800000 and rangeEndExclusive = 1770076800000
        and checkoutDates = "[]"
        and ev = "\<lparr>uid = ''r1'', type' = ''reservation'', start = ''2026-01-30'',
                   end' = ''2026-02-01'', summary = ''''\<rparr>"]
      s e h1 h2
    by simp
qed

text \<open>
  C2. \<open>halfIndex(date, rangeStart, half)\<close> is the whole-day difference from \<open>rangeStart\<close> to
  \<open>date\<close> times 2, plus 2 for PM and 1 for AM: it is \<^verbatim>\<open>diffDays(rangeStart, date)\<close>
  doubled plus the half, and \<open>n\<close> whole days after \<open>rangeStart\<close> it is \<open>2n\<close> plus the half.
  It is unchanged when the date and the window start are both moved by \<open>k\<close> days with
  \<^verbatim>\<open>addDays\<close>. Moving the window start to the same day of the next month, from
  \<^verbatim>\<open>makeUTCDate(y, m, dd)\<close> to \<^verbatim>\<open>makeUTCDate(y, m + 1, dd)\<close>, changes every index by twice
  the number of days of the month left behind, whatever the day of the month.
\<close>

theorem halfIndex_elapsed_days:
  "halfIndex dateObj rangeStart half =
     num_add (num_mul (diffDays rangeStart dateObj) (Some 2))
       (Some (if half = ''pm'' then 2 else 1))
   \<and> halfIndex (Some (r + n * msPerDay)) (Some r) half =
       Some (n * 2 + (if half = ''pm'' then 2 else 1))
   \<and> (addDays (Some d) k = Some d' \<and> addDays (Some r) k = Some r' \<longrightarrow>
        halfIndex (Some d') (Some r') half = halfIndex (Some d) (Some r) half)
   \<and> (makeUTCDate y m dd = Some a \<and> makeUTCDate y (m + 1) dd = Some b \<longrightarrow>
        halfIndex (Some d) (Some a) half =
          num_add (halfIndex (Some d) (Some b) half)
            (Some (2 * daysInMonth (MakeFullYear y + m div 12) (m mod 12))))"
proof (intro conjI impI)
  show "halfIndex dateObj rangeStart half =
     num_add (num_mul (diffDays rangeStart dateObj) (Some 2))
       (Some (if half = ''pm'' then 2 else 1))"
    by (simp add: halfIndex_def diffDays_def)
next
  show "halfIndex (Some (r + n * msPerDay)) (Some r) half =
       Some (n * 2 + (if half = ''pm'' then 2 else 1))"
    using roundDays_whole [of n] by (simp add: halfIndex_def)
next
  assume "addDays (Some d) k = Some d' \<and> addDays (Some r) k = Some r'"
  then have "d' = d + k * msPerDay" and "r' = r + k * msPerDay"
    by (auto simp: addDays_eq dest: timeClip_Some)
  then show "halfIndex (Some d') (Some r') half = halfIndex (Some d) (Some r) half"
    by (simp add: halfIndex_def)
next
  assume "makeUTCDate y m dd = Some a \<and> makeUTCDate y (m + 1) dd = Some b"
  then have "b = a + daysInMonth (MakeFullYear y + m div 12) (m mod 12) * msPerDay"
    by (auto dest: makeUTCDate_next_month)
  then show "halfIndex (Some d) (Some a) half =
          num_add (halfIndex (Some d) (Some b) half)
            (Some (2 * daysInMonth (MakeFullYear y + m div 12) (m mod 12)))"
    using halfIndex_window_shift [of d a half "daysInMonth (MakeFullYear y + m div 12) (m mod 12)"]
    by simp
qed

theorem halfIndex_elapsed_days_witness:
  "makeUTCDate 2026 0 1 = Some 1767225600000
   \<and> makeUTCDate 2026 1 1 = Some 1769904000000
   \<and> halfIndex (Some 1770681600000) (Some 1767225600000) ''pm'' = Some 82
   \<and> halfIndex (Some 1770681600000) (Some 1769904000000) ''pm'' = Some 20
   \<and> Some 82 = num_add (Some 20) (Some (2 * daysInMonth 2026 0))
   \<and> addDays (Some 1770681600000) 30 = Some 1773273600000
   \<and> addDays (Some 1767225600000) 30 = Some 1769817600000
   \<and> halfIndex (Some 1773273600000) (Some 1769817600000) ''pm'' = Some 82
   \<and> halfIndex (Some (1767225600000 + 40 * msPerDay)) (Some 1767225600000) ''pm'' = Some 82"
proof -
  have a: "makeUTCDate 2026 0 1 = Some 1767225600000" by code_simp
  have b: "makeUTCDate 2026 (0 + 1) 1 = Some 1769904000000" by code_simp
  have d': "addDays (Some 1770681600000) 30 = Some 1773273600000" by code_simp
  have r': "addDays (Some 1767225600000) 30 = Some 1769817600000" by code_simp
  have h: "daysInMonth (MakeFullYear 2026 + 0 div 12) (0 mod 12) = daysInMonth 2026 0"
    by code_simp
  have g: "halfIndex (Some 1770681600000) (Some 1767225600000) ''pm'' = Some 82" by code_simp
  have j: "halfIndex (Some 1770681600000) (Some 1769904000000) ''pm'' = Some 20" by code_simp
  note T = halfIndex_elapsed_days [where d = 1770681600000 and r = 1767225600000
      and n = 40 and k = 30 and d' = 1773273600000 and r' = 1769817600000
      and half = "''pm''" and y = 2026 and m = 0 and dd = 1
      and a = 1767225600000 and b = 1769904000000]
  from T d' r' have "halfIndex (Some 1773273600000) (Some 1769817600000) ''pm''
       = halfIndex (Some 1770681600000) (Some 1767225600000) ''pm''"
    by blast
  then have inv: "halfIndex (Some 1773273600000) (Some 1769817600000) ''pm'' = Some 82"
    by (simp only: g)
  from T a b have "halfIndex (Some 1770681600000) (Some 1767225600000) ''pm''
       = num_add (halfIndex (Some 1770681600000) (Some 1769904000000) ''pm'')
           (Some (2 * daysInMonth (MakeFullYear 2026 + 0 div 12) (0 mod 12)))"
    by blast
  then have mon: "Some 82 = num_add (Some 20) (Some (2 * daysInMonth 2026 0))"
    by (simp only: g j h)
  from T have "halfIndex (Some (1767225600000 + 40 * msPerDay)) (Some 1767225600000) ''pm''
       = Some (40 * 2 + (if ''pm'' = ''pm'' then 2 else 1))"
    by blast
  then have whole: "halfIndex (Some (1767225600000 + 40 * msPerDay)) (Some 1767225600000) ''pm''
       = Some 82"
    by simp
  have b': "makeUTCDate 2026 1 1 = Some 1769904000000" using b by simp
  from a b' g j mon d' r' inv whole show ?thesis by (intro conjI)
qed

text \<open>
  C3. A closed event that overlaps the window is projected, and when its start date is in
  the checkout-date set of the property's reservations its start half is the PM slot of
  the clipped start day, \<open>halfIndex(max(start, rangeStart), rangeStart, PM)\<close>; when its
  start is not a checkout date it is the AM slot of that day. This holds for
  \<^verbatim>\<open>computeEventSpan\<close> and for the week rows of the month renderer, and the set either
  renderer passes is the set of the end dates of the property's events that are not
  closed periods.
\<close>

theorem closed_start_half:
  assumes "type' ev = ''closed''"
    and "parseDate (start ev) = Some S" and "parseDate (end' ev) = Some E"
  shows "(rangeStart < E \<and> S < rangeEndExclusive \<longrightarrow>
            (\<exists>sp. computeEventSpan ev (Some rangeStart) (Some rangeEndExclusive) checkoutDates
                    = Some sp \<and>
                  startHalf sp =
                    halfIndex (Some (max S rangeStart)) (Some rangeStart)
                      (if start ev \<in> set checkoutDates then ''pm'' else ''am'')))
       \<and> (addDays (Some weekStart) 7 = Some weekEnd \<and> S < E \<and> weekStart < E \<and>
          S < weekEnd \<longrightarrow>
            (\<exists>cols. renderSingleProperty_cols ev (Some weekStart) checkoutDates = Some cols \<and>
                  startHalf cols =
                    halfIndex (Some (max S weekStart)) (Some weekStart)
                      (if start ev \<in> set checkoutDates then ''pm'' else ''am'')))
       \<and> set (checkouts_set (renderCalendar_sets events)) =
            end' ` {r \<in> set events. type' r \<noteq> ''closed''}
       \<and> set (renderSingleProperty_checkouts events) =
            end' ` {r \<in> set events. type' r \<noteq> ''closed''}"
proof (intro conjI impI)
  assume "rangeStart < E \<and> S < rangeEndExclusive"
  then show "\<exists>sp. computeEventSpan ev (Some rangeStart) (Some rangeEndExclusive) checkoutDates
                    = Some sp \<and>
                  startHalf sp =
                    halfIndex (Some (max S rangeStart)) (Some rangeStart)
                      (if start ev \<in> set checkoutDates then ''pm'' else ''am'')"
    using assms
    by (simp add: computeEventSpan_def Let_def num_ge_def displayStart_of_def Set_has_def
        max_def)
next
  assume h: "addDays (Some weekStart) 7 = Some weekEnd \<and> S < E \<and> weekStart < E \<and>
          S < weekEnd"
  then have "weekEnd = weekStart + 7 * msPerDay"
    by (auto simp: addDays_eq dest: timeClip_Some)
  then have "weekStart < weekEnd"
    using msPerDay_pos by simp
  then show "\<exists>cols. renderSingleProperty_cols ev (Some weekStart) checkoutDates = Some cols \<and>
                  startHalf cols =
                    halfIndex (Some (max S weekStart)) (Some weekStart)
                      (if start ev \<in> set checkoutDates then ''pm'' else ''am'')"
    using assms h
    by (simp add: renderSingleProperty_cols_def Let_def num_ge_def num_gt_def
        displayStart_of_def displayEnd_of_def Set_has_def max_def)
next
  show "set (checkouts_set (renderCalendar_sets events)) =
      end' ` {r \<in> set events. type' r \<noteq> ''closed''}"
    by (rule renderCalendar_checkouts)
next
  show "set (renderSingleProperty_checkouts events) =
      end' ` {r \<in> set events. type' r \<noteq> ''closed''}"
    by (rule renderSingleProperty_checkouts_set)
qed

theorem closed_start_half_witness:
  "computeEventSpan
     \<lparr>uid = ''c5'', type' = ''closed'', start = ''2026-01-10'', end' = ''2026-03-01'',
      summary = ''''\<rparr>
     (Some 1769990400000) (Some 1770595200000)
     (checkouts_set (renderCalendar_sets
       [\<lparr>uid = ''r5'', type' = ''reservation'', start = ''2026-01-05'', end' = ''2026-01-10'',
         summary = ''''\<rparr>]))
   = Some \<lparr>startHalf = Some 2, endHalf = Some 15\<rparr>
   \<and> Some 2 = halfIndex (Some (max 1768003200000 1769990400000)) (Some 1769990400000) ''pm''
   \<and> renderSingleProperty_cols
       \<lparr>uid = ''c5'', type' = ''closed'', start = ''2026-01-10'', end' = ''2026-03-01'',
        summary = ''''\<rparr>
       (Some 1769990400000) []
     = Some \<lparr>startHalf = Some 1, endHalf = Some 15\<rparr>
   \<and> Some 1 = halfIndex (Some (max 1768003200000 1769990400000)) (Some 1769990400000) ''am''
   \<and> computeEventSpan
       \<lparr>uid = ''c1'', type' = ''closed'', start = ''2026-02-04'', end' = ''2026-02-06'',
        summary = ''''\<rparr>
       (Some 1769990400000) (Some 1770595200000) [''2026-02-04'']
     = Some \<lparr>startHalf = Some 6, endHalf = Some 9\<rparr>
   \<and> Some 6 = halfIndex (Some (max 1770163200000 1769990400000)) (Some 1769990400000) ''pm''"
proof -
  let ?c = "\<lparr>uid = ''c5'', type' = ''closed'', start = ''2026-01-10'', end' = ''2026-03-01'',
      summary = ''''\<rparr>"
  let ?d = "\<lparr>uid = ''c1'', type' = ''closed'', start = ''2026-02-04'', end' = ''2026-02-06'',
      summary = ''''\<rparr>"
  let ?co = "checkouts_set (renderCalendar_sets
       [\<lparr>uid = ''r5'', type' = ''reservation'', start = ''2026-01-05'', end' = ''2026-01-10'',
         summary = ''''\<rparr>])"
  have ty: "type' ?c = ''closed''" by simp
  have ps: "parseDate (start ?c) = Some 1768003200000" by code_simp
  have pe: "parseDate (end' ?c) = Some 1772323200000" by code_simp
  have ov: "(1769990400000::int) < 1772323200000 \<and> (1768003200000::int) < 1770595200000"
    by simp
  have co: "?co = [''2026-01-10'']" by code_simp
  have sp: "computeEventSpan ?c (Some 1769990400000) (Some 1770595200000) ?co
      = Some \<lparr>startHalf = Some 2, endHalf = Some 15\<rparr>"
    by code_simp
  from closed_start_half [OF ty ps pe, where rangeStart = 1769990400000
      and rangeEndExclusive = 1770595200000 and checkoutDates = ?co] ov
  obtain sp0 where "computeEventSpan ?c (Some 1769990400000) (Some 1770595200000) ?co = Some sp0"
    and "startHalf sp0 =
      halfIndex (Some (max 1768003200000 1769990400000)) (Some 1769990400000)
        (if start ?c \<in> set ?co then ''pm'' else ''am'')"
    by blast
  then have "startHalf \<lparr>startHalf = Some 2, endHalf = Some 15\<rparr> =
      halfIndex (Some (max 1768003200000 1769990400000)) (Some 1769990400000)
        (if start ?c \<in> set ?co then ''pm'' else ''am'')"
    using sp by simp
  then have pm: "Some 2 =
      halfIndex (Some (max 1768003200000 1769990400000)) (Some 1769990400000) ''pm''"
    unfolding co by simp
  have wk: "addDays (Some 1769990400000) 7 = Some 1770595200000" by code_simp
  have se: "(1768003200000::int) < 1772323200000" by simp
  have cols: "renderSingleProperty_cols ?c (Some 1769990400000) []
      = Some \<lparr>startHalf = Some 1, endHalf = Some 15\<rparr>"
    by code_simp
  from closed_start_half [OF ty ps pe, where weekStart = 1769990400000
      and weekEnd = 1770595200000 and checkoutDates = "[]"] wk se ov
  obtain cols0 where "renderSingleProperty_cols ?c (Some 1769990400000) [] = Some cols0"
    and "startHalf cols0 =
      halfIndex (Some (max 1768003200000 1769990400000)) (Some 1769990400000)
        (if start ?c \<in> set [] then ''pm'' else ''am'')"
    by blast
  then have "startHalf \<lparr>startHalf = Some 1, endHalf = Some 15\<rparr> =
      halfIndex (Some (max 1768003200000 1769990400000)) (Some 1769990400000)
        (if start ?c \<in> set [] then ''pm'' else ''am'')"
    using cols by simp
  then have am: "Some 1 =
      halfIndex (Some (max 1768003200000 1769990400000)) (Some 1769990400000) ''am''"
    by simp
  have ty': "type' ?d = ''closed''" by simp
  have ps': "parseDate (start ?d) = Some 1770163200000" by code_simp
  have pe': "parseDate (end' ?d) = Some 1770336000000" by code_simp
  have ov': "(1769990400000::int) < 1770336000000 \<and> (1770163200000::int) < 1770595200000"
    by simp
  have sp': "computeEventSpan ?d (Some 1769990400000) (Some 1770595200000) [''2026-02-04'']
      = Some \<lparr>startHalf = Some 6, endHalf = Some 9\<rparr>"
    by code_simp
  from closed_start_half [OF ty' ps' pe', where rangeStart = 1769990400000
      and rangeEndExclusive = 1770595200000 and checkoutDates = "[''2026-02-04'']"] ov'
  obtain sp1 where
    "computeEventSpan ?d (Some 1769990400000) (Some 1770595200000) [''2026-02-04''] = Some sp1"
    and "startHalf sp1 =
      halfIndex (Some (max 1770163200000 1769990400000)) (Some 1769990400000)
        (if start ?d \<in> set [''2026-02-04''] then ''pm'' else ''am'')"
    by blast
  then have "startHalf \<lparr>startHalf = Some 6, endHalf = Some 9\<rparr> =
      halfIndex (Some (max 1770163200000 1769990400000)) (Some 1769990400000)
        (if start ?d \<in> set [''2026-02-04''] then ''pm'' else ''am'')"
    using sp' by simp
  then have pm': "Some 6 =
      halfIndex (Some (max 1770163200000 1769990400000)) (Some 1769990400000) ''pm''"
    by simp
  from sp pm cols am sp' pm' show ?thesis by (intro conjI)
qed

text \<open>
  C4. An event of either type that overlaps the window and ends at or after
  \<open>rangeEndExclusive\<close> is projected, with \<open>endHalf = totalHalves + 1\<close>, where
  \<open>totalHalves\<close> is \<^verbatim>\<open>diffDays(rangeStart, rangeEndExclusive)\<close> times 2, however far past
  the window the event ends and wherever it starts. In a week row of the month renderer
  the end is the constant 15, which is \<open>7 * 2 + 1\<close> for the seven days of the week.
\<close>

theorem end_beyond_window:
  assumes "parseDate (start ev) = Some S" and "parseDate (end' ev) = Some E"
    and "rangeEndExclusive \<le> E" and "S < rangeEndExclusive"
  shows "(rangeStart < E \<longrightarrow>
            (\<exists>sp. computeEventSpan ev (Some rangeStart) (Some rangeEndExclusive) checkoutDates
                    = Some sp \<and>
                  endHalf sp =
                    num_add (num_mul (diffDays (Some rangeStart) (Some rangeEndExclusive))
                               (Some 2)) (Some 1)))
       \<and> (addDays (Some weekStart) 7 = Some rangeEndExclusive \<longrightarrow>
            (\<exists>cols. renderSingleProperty_cols ev (Some weekStart) checkoutDates = Some cols \<and>
                  endHalf cols = Some (7 * 2 + 1) \<and>
                  diffDays (Some weekStart) (Some rangeEndExclusive) = Some 7))"
proof (intro conjI impI)
  assume "rangeStart < E"
  then show "\<exists>sp. computeEventSpan ev (Some rangeStart) (Some rangeEndExclusive) checkoutDates
                    = Some sp \<and>
                  endHalf sp =
                    num_add (num_mul (diffDays (Some rangeStart) (Some rangeEndExclusive))
                               (Some 2)) (Some 1)"
    using assms
    by (simp add: computeEventSpan_def Let_def num_ge_def diffDays_def
        del: roundDays.simps)
next
  assume h: "addDays (Some weekStart) 7 = Some rangeEndExclusive"
  then have we: "rangeEndExclusive = weekStart + 7 * msPerDay"
    by (auto simp: addDays_eq dest: timeClip_Some)
  then have lt: "weekStart < rangeEndExclusive"
    using msPerDay_pos by simp
  have d: "diffDays (Some weekStart) (Some rangeEndExclusive) = Some 7"
    unfolding we using roundDays_whole [of 7] by (simp add: diffDays_def)
  have "\<exists>cols. renderSingleProperty_cols ev (Some weekStart) checkoutDates = Some cols \<and>
                  endHalf cols = Some (7 * 2 + 1)"
    using assms h lt
    by (simp add: renderSingleProperty_cols_def Let_def num_ge_def num_gt_def
        displayStart_of_def displayEnd_of_def max_def)
  with d show "\<exists>cols. renderSingleProperty_cols ev (Some weekStart) checkoutDates = Some cols \<and>
                  endHalf cols = Some (7 * 2 + 1) \<and>
                  diffDays (Some weekStart) (Some rangeEndExclusive) = Some 7"
    by blast
qed

theorem end_beyond_window_witness:
  "computeEventSpan
       \<lparr>uid = ''r2'', type' = ''reservation'', start = ''2026-01-20'', end' = ''2026-03-15'',
        summary = ''''\<rparr>
       (Some 1769385600000) (Some 1769990400000) []
     = Some \<lparr>startHalf = Some 1, endHalf = Some 15\<rparr>
   \<and> computeEventSpan
       \<lparr>uid = ''c2'', type' = ''closed'', start = ''2026-01-20'', end' = ''2026-03-15'',
        summary = ''''\<rparr>
       (Some 1769385600000) (Some 1769990400000) []
     = Some \<lparr>startHalf = Some 1, endHalf = Some 15\<rparr>
   \<and> Some 15 =
       num_add (num_mul (diffDays (Some 1769385600000) (Some 1769990400000)) (Some 2)) (Some 1)
   \<and> addDays (Some 1769385600000) 7 = Some 1769990400000
   \<and> renderSingleProperty_cols
       \<lparr>uid = ''r2'', type' = ''reservation'', start = ''2026-01-20'', end' = ''2026-03-15'',
        summary = ''''\<rparr>
       (Some 1769385600000) []
     = Some \<lparr>startHalf = Some 1, endHalf = Some 15\<rparr>
   \<and> diffDays (Some 1769385600000) (Some 1769990400000) = Some 7"
proof -
  let ?r = "\<lparr>uid = ''r2'', type' = ''reservation'', start = ''2026-01-20'',
      end' = ''2026-03-15'', summary = ''''\<rparr>"
  let ?c = "\<lparr>uid = ''c2'', type' = ''closed'', start = ''2026-01-20'',
      end' = ''2026-03-15'', summary = ''''\<rparr>"
  have s: "parseDate (start ?r) = Some 1768867200000" by code_simp
  have e: "parseDate (end' ?r) = Some 1773532800000" by code_simp
  have s': "parseDate (start ?c) = Some 1768867200000" by code_simp
  have e': "parseDate (end' ?c) = Some 1773532800000" by code_simp
  have le: "(1769990400000::int) \<le> 1773532800000" by simp
  have lt: "(1768867200000::int) < 1769990400000" by simp
  have ov: "(1769385600000::int) < 1773532800000" by simp
  have sp: "computeEventSpan ?r (Some 1769385600000) (Some 1769990400000) []
      = Some \<lparr>startHalf = Some 1, endHalf = Some 15\<rparr>"
    by code_simp
  have spc: "computeEventSpan ?c (Some 1769385600000) (Some 1769990400000) []
      = Some \<lparr>startHalf = Some 1, endHalf = Some 15\<rparr>"
    by code_simp
  have wk: "addDays (Some 1769385600000) 7 = Some 1769990400000" by code_simp
  have cols: "renderSingleProperty_cols ?r (Some 1769385600000) []
      = Some \<lparr>startHalf = Some 1, endHalf = Some 15\<rparr>"
    by code_simp
  note T = end_beyond_window [OF s e le lt, where rangeStart = 1769385600000
      and weekStart = 1769385600000 and checkoutDates = "[]"]
  from T ov obtain sp0 where
    "computeEventSpan ?r (Some 1769385600000) (Some 1769990400000) [] = Some sp0"
    and "endHalf sp0 =
      num_add (num_mul (diffDays (Some 1769385600000) (Some 1769990400000)) (Some 2)) (Some 1)"
    by blast
  then have "endHalf \<lparr>startHalf = Some 1, endHalf = Some 15\<rparr> =
      num_add (num_mul (diffDays (Some 1769385600000) (Some 1769990400000)) (Some 2)) (Some 1)"
    using sp by simp
  then have a: "Some 15 =
      num_add (num_mul (diffDays (Some 1769385600000) (Some 1769990400000)) (Some 2)) (Some 1)"
    by simp
  from T wk have b: "diffDays (Some 1769385600000) (Some 1769990400000) = Some 7"
    by blast
  from end_beyond_window [OF s' e' le lt, where rangeStart = 1769385600000
      and checkoutDates = "[]"] ov
  obtain sp1 where
    "computeEventSpan ?c (Some 1769385600000) (Some 1769990400000) [] = Some sp1"
    by blast
  from sp spc a wk cols b show ?thesis by (intro conjI)
qed

text \<open>
  C5. The claim: an event of either type that starts before \<open>rangeStart\<close> and ends at or
  after \<open>rangeEndExclusive\<close> is projected to the full window, from half 1 to
  \<open>totalHalves + 1\<close>, for any set of checkout dates. The code at a closed period from
  2026-01-10 to 2026-03-01 on a property whose reservation checks out on 2026-01-10, in
  the week from Monday 2026-02-02 to 2026-02-09: the span starts at half 2, in
  \<^verbatim>\<open>computeEventSpan\<close> and in the week row of the month renderer, so the morning of the
  first day of the window is left free three weeks into the closed period. The window
  starts at half 1 and has 7 days, and a reservation with the same dates gets the full
  window, from 1 to 15.
\<close>

theorem closed_on_checkout_clipped:
  "computeEventSpan
     \<lparr>uid = ''c5'', type' = ''closed'', start = ''2026-01-10'', end' = ''2026-03-01'',
      summary = ''''\<rparr>
     (parseDate ''2026-02-02'') (parseDate ''2026-02-09'')
     (checkouts_set (renderCalendar_sets
       [\<lparr>uid = ''r5'', type' = ''reservation'', start = ''2026-01-05'', end' = ''2026-01-10'',
         summary = ''''\<rparr>,
        \<lparr>uid = ''c5'', type' = ''closed'', start = ''2026-01-10'', end' = ''2026-03-01'',
         summary = ''''\<rparr>]))
   = Some \<lparr>startHalf = Some 2, endHalf = Some 15\<rparr>
   \<and> renderSingleProperty_pill
     \<lparr>uid = ''c5'', type' = ''closed'', start = ''2026-01-10'', end' = ''2026-03-01'',
      summary = ''''\<rparr>
     (parseDate ''2026-02-02'')
     (renderSingleProperty_checkouts
       [\<lparr>uid = ''r5'', type' = ''reservation'', start = ''2026-01-05'', end' = ''2026-01-10'',
         summary = ''''\<rparr>,
        \<lparr>uid = ''c5'', type' = ''closed'', start = ''2026-01-10'', end' = ''2026-03-01'',
         summary = ''''\<rparr>])
   = Some \<lparr>startHalf = Some 2, endHalf = Some 15\<rparr>
   \<and> halfIndex (parseDate ''2026-02-02'') (parseDate ''2026-02-02'') ''am'' = Some 1
   \<and> diffDays (parseDate ''2026-02-02'') (parseDate ''2026-02-09'') = Some 7
   \<and> num_lt (parseDate ''2026-01-10'') (parseDate ''2026-02-02'')
   \<and> num_ge (parseDate ''2026-03-01'') (parseDate ''2026-02-09'')
   \<and> computeEventSpan
     \<lparr>uid = ''c5'', type' = ''reservation'', start = ''2026-01-10'', end' = ''2026-03-01'',
      summary = ''''\<rparr>
     (parseDate ''2026-02-02'') (parseDate ''2026-02-09'') [''2026-01-10'']
   = Some \<lparr>startHalf = Some 1, endHalf = Some 15\<rparr>"
  by (intro conjI; code_simp)

text \<open>
  C6 as stated: in both renderers a date is a quick turn if and only if some reservation
  checks out on it and a reservation with a different uid arrives on it, so that a single
  reservation whose start equals its end never makes its date a quick turn. The
  rolling-window renderer intersects the start dates with the end dates and never looks
  at a uid: a single reservation from 2026-03-05 to 2026-03-05 makes that date a quick
  turn, and so do two reservations with one uid that meet on it. The month renderer asks
  for an arriving uid that is not among the uids checking out: when the arriving
  reservation is itself among those that check out on the date, or shares its uid with
  one of them, the date is no quick turn although a reservation with another uid checks
  out on it.
\<close>

theorem quickTurn_degenerate_counterexample:
  "''2026-03-05'' \<in> set (renderCalendar_quickTurns
      [\<lparr>uid = ''a'', type' = ''reservation'', start = ''2026-03-05'', end' = ''2026-03-05'',
        summary = ''''\<rparr>])
   \<and> \<not> differentBookingTurn
      [\<lparr>uid = ''a'', type' = ''reservation'', start = ''2026-03-05'', end' = ''2026-03-05'',
        summary = ''''\<rparr>] ''2026-03-05''
   \<and> ''2026-03-05'' \<in> set (renderCalendar_quickTurns
      [\<lparr>uid = ''a'', type' = ''reservation'', start = ''2026-03-01'', end' = ''2026-03-05'',
        summary = ''''\<rparr>,
       \<lparr>uid = ''a'', type' = ''reservation'', start = ''2026-03-05'', end' = ''2026-03-08'',
        summary = ''''\<rparr>])
   \<and> \<not> differentBookingTurn
      [\<lparr>uid = ''a'', type' = ''reservation'', start = ''2026-03-01'', end' = ''2026-03-05'',
        summary = ''''\<rparr>,
       \<lparr>uid = ''a'', type' = ''reservation'', start = ''2026-03-05'', end' = ''2026-03-08'',
        summary = ''''\<rparr>] ''2026-03-05''
   \<and> ''2026-03-05'' \<notin> set (renderSingleProperty_quickTurns
      [\<lparr>uid = ''a'', type' = ''reservation'', start = ''2026-03-05'', end' = ''2026-03-05'',
        summary = ''''\<rparr>,
       \<lparr>uid = ''b'', type' = ''reservation'', start = ''2026-03-01'', end' = ''2026-03-05'',
        summary = ''''\<rparr>])
   \<and> differentBookingTurn
      [\<lparr>uid = ''a'', type' = ''reservation'', start = ''2026-03-05'', end' = ''2026-03-05'',
        summary = ''''\<rparr>,
       \<lparr>uid = ''b'', type' = ''reservation'', start = ''2026-03-01'', end' = ''2026-03-05'',
        summary = ''''\<rparr>] ''2026-03-05''
   \<and> ''2026-03-05'' \<notin> set (renderSingleProperty_quickTurns
      [\<lparr>uid = ''a'', type' = ''reservation'', start = ''2026-03-01'', end' = ''2026-03-05'',
        summary = ''''\<rparr>,
       \<lparr>uid = ''b'', type' = ''reservation'', start = ''2026-03-05'', end' = ''2026-03-08'',
        summary = ''''\<rparr>,
       \<lparr>uid = ''b'', type' = ''reservation'', start = ''2026-03-02'', end' = ''2026-03-05'',
        summary = ''''\<rparr>])
   \<and> differentBookingTurn
      [\<lparr>uid = ''a'', type' = ''reservation'', start = ''2026-03-01'', end' = ''2026-03-05'',
        summary = ''''\<rparr>,
       \<lparr>uid = ''b'', type' = ''reservation'', start = ''2026-03-05'', end' = ''2026-03-08'',
        summary = ''''\<rparr>,
       \<lparr>uid = ''b'', type' = ''reservation'', start = ''2026-03-02'', end' = ''2026-03-05'',
        summary = ''''\<rparr>] ''2026-03-05''"
  by (intro conjI; code_simp)

text \<open>
  C6, amended. For a property in which no reservation has its start equal to its end and
  reservations with the same uid are the same event, a date is a quick turn, in the
  rolling-window renderer and in the month renderer, if and only if some reservation
  checks out on it and a reservation with a different uid arrives on it. In the month
  renderer, for every property, a quick turn has such a pair of reservations, so a
  single reservation, whose start may equal its end, never makes its date a quick turn
  there. In the rolling-window renderer, for every property, a date with such a pair of
  reservations is a quick turn.
\<close>

theorem quickTurn_different_booking:
  "((\<forall>r \<in> set events. type' r \<noteq> ''closed'' \<longrightarrow> start r \<noteq> end' r) \<and>
    (\<forall>a \<in> set events. \<forall>b \<in> set events.
       type' a \<noteq> ''closed'' \<and> type' b \<noteq> ''closed'' \<and> uid a = uid b \<longrightarrow> a = b) \<longrightarrow>
      (d \<in> set (renderCalendar_quickTurns events)) = differentBookingTurn events d \<and>
      (d \<in> set (renderSingleProperty_quickTurns events)) = differentBookingTurn events d)
   \<and> (d \<in> set (renderSingleProperty_quickTurns events) \<longrightarrow> differentBookingTurn events d)
   \<and> renderSingleProperty_quickTurns [r] = []
   \<and> (differentBookingTurn events d \<longrightarrow> d \<in> set (renderCalendar_quickTurns events))"
proof (intro conjI impI)
  assume wf: "(\<forall>r \<in> set events. type' r \<noteq> ''closed'' \<longrightarrow> start r \<noteq> end' r) \<and>
    (\<forall>a \<in> set events. \<forall>b \<in> set events.
       type' a \<noteq> ''closed'' \<and> type' b \<noteq> ''closed'' \<and> uid a = uid b \<longrightarrow> a = b)"
  then have wf1: "\<forall>r \<in> set events. type' r \<noteq> ''closed'' \<longrightarrow> start r \<noteq> end' r"
    and wf2: "\<forall>a \<in> set events. \<forall>b \<in> set events.
       type' a \<noteq> ''closed'' \<and> type' b \<noteq> ''closed'' \<and> uid a = uid b \<longrightarrow> a = b"
    by (rule conjunct1, rule conjunct2)
  show "(d \<in> set (renderCalendar_quickTurns events)) = differentBookingTurn events d"
    using wf1 wf2 by (rule rolling_turn_iff)
  show "(d \<in> set (renderSingleProperty_quickTurns events)) = differentBookingTurn events d"
    using wf1 wf2 by (rule month_turn_iff)
next
  assume "d \<in> set (renderSingleProperty_quickTurns events)"
  then show "differentBookingTurn events d" by (rule month_turn_has_pair)
next
  show "renderSingleProperty_quickTurns [r] = []"
  proof (cases "renderSingleProperty_quickTurns [r]")
    case Nil
    then show ?thesis .
  next
    case (Cons x xs)
    then have "x \<in> set (renderSingleProperty_quickTurns [r])" by simp
    then have "differentBookingTurn [r] x" by (rule month_turn_has_pair)
    then show ?thesis by (simp add: differentBookingTurn_iff)
  qed
next
  assume "differentBookingTurn events d"
  then show "d \<in> set (renderCalendar_quickTurns events)" by (rule pair_turn_rolling)
qed

theorem quickTurn_different_booking_witness:
  "''2026-03-05'' \<in> set (renderCalendar_quickTurns
      [\<lparr>uid = ''a'', type' = ''reservation'', start = ''2026-03-01'', end' = ''2026-03-05'',
        summary = ''''\<rparr>,
       \<lparr>uid = ''b'', type' = ''reservation'', start = ''2026-03-05'', end' = ''2026-03-08'',
        summary = ''''\<rparr>])
   \<and> ''2026-03-05'' \<in> set (renderSingleProperty_quickTurns
      [\<lparr>uid = ''a'', type' = ''reservation'', start = ''2026-03-01'', end' = ''2026-03-05'',
        summary = ''''\<rparr>,
       \<lparr>uid = ''b'', type' = ''reservation'', start = ''2026-03-05'', end' = ''2026-03-08'',
        summary = ''''\<rparr>])
   \<and> differentBookingTurn
      [\<lparr>uid = ''a'', type' = ''reservation'', start = ''2026-03-01'', end' = ''2026-03-05'',
        summary = ''''\<rparr>,
       \<lparr>uid = ''b'', type' = ''reservation'', start = ''2026-03-05'', end' = ''2026-03-08'',
        summary = ''''\<rparr>] ''2026-03-05''
   \<and> renderSingleProperty_quickTurns
      [\<lparr>uid = ''a'', type' = ''reservation'', start = ''2026-03-05'', end' = ''2026-03-05'',
        summary = ''''\<rparr>] = []"
proof -
  let ?evs = "[\<lparr>uid = ''a'', type' = ''reservation'', start = ''2026-03-01'',
        end' = ''2026-03-05'', summary = ''''\<rparr>,
       \<lparr>uid = ''b'', type' = ''reservation'', start = ''2026-03-05'', end' = ''2026-03-08'',
        summary = ''''\<rparr>]"
  have wf1: "\<forall>r \<in> set ?evs. type' r \<noteq> ''closed'' \<longrightarrow> start r \<noteq> end' r"
    by simp
  have wf2: "\<forall>a \<in> set ?evs. \<forall>b \<in> set ?evs.
       type' a \<noteq> ''closed'' \<and> type' b \<noteq> ''closed'' \<and> uid a = uid b \<longrightarrow> a = b"
    by simp
  have t: "differentBookingTurn ?evs ''2026-03-05''"
    by code_simp
  note T = quickTurn_different_booking [where events = ?evs and d = "''2026-03-05''"
      and r = "\<lparr>uid = ''a'', type' = ''reservation'', start = ''2026-03-05'',
        end' = ''2026-03-05'', summary = ''''\<rparr>"]
  from T wf1 wf2 t have "''2026-03-05'' \<in> set (renderCalendar_quickTurns ?evs)"
    and "''2026-03-05'' \<in> set (renderSingleProperty_quickTurns ?evs)"
    by blast+
  moreover from T have "renderSingleProperty_quickTurns
      [\<lparr>uid = ''a'', type' = ''reservation'', start = ''2026-03-05'', end' = ''2026-03-05'',
        summary = ''''\<rparr>] = []"
    by blast
  ultimately show ?thesis using t by (intro conjI)
qed




text \<open>
  C8. For a window with \<open>rangeStart < rangeEndExclusive\<close>, the projection is none exactly
  when the event does not meet the window: \<^verbatim>\<open>computeEventSpan\<close> returns null if and only
  if the event ends at or before \<open>rangeStart\<close> or starts at or after \<open>rangeEndExclusive\<close>,
  and then the renderer makes no pill. For an event with \<open>start < end\<close> that is the case
  exactly when the half-open ranges of the event and of the window are disjoint, and on a
  day-aligned window an event, whatever the order of its start and its end, gets no pill
  exactly when its range is disjoint from the window.
\<close>

theorem outside_window_none:
  assumes "parseDate (start ev) = Some S" and "parseDate (end' ev) = Some E"
    and "rangeStart < rangeEndExclusive"
  shows "(computeEventSpan ev (Some rangeStart) (Some rangeEndExclusive) checkoutDates = None)
           = (E \<le> rangeStart \<or> rangeEndExclusive \<le> S)
       \<and> (E \<le> rangeStart \<or> rangeEndExclusive \<le> S \<longrightarrow>
            renderCalendar_pill ev (Some rangeStart) (Some rangeEndExclusive) checkoutDates
              = None)
       \<and> (S < E \<longrightarrow>
            (computeEventSpan ev (Some rangeStart) (Some rangeEndExclusive) checkoutDates = None)
              = ({S..<E} \<inter> {rangeStart..<rangeEndExclusive} = {}))
       \<and> (msPerDay dvd rangeStart \<and> msPerDay dvd rangeEndExclusive \<longrightarrow>
            (renderCalendar_pill ev (Some rangeStart) (Some rangeEndExclusive) checkoutDates
               = None)
              = ({S..<E} \<inter> {rangeStart..<rangeEndExclusive} = {}))"
proof (intro conjI impI)
  show none: "(computeEventSpan ev (Some rangeStart) (Some rangeEndExclusive) checkoutDates = None)
           = (E \<le> rangeStart \<or> rangeEndExclusive \<le> S)"
    using assms by (simp add: computeEventSpan_def Let_def num_ge_def)
  show "renderCalendar_pill ev (Some rangeStart) (Some rangeEndExclusive) checkoutDates = None"
    if "E \<le> rangeStart \<or> rangeEndExclusive \<le> S"
    using that none by (simp add: renderCalendar_pill_def)
  have disj: "({S..<E} \<inter> {rangeStart..<rangeEndExclusive} = {})
      = (E \<le> S \<or> E \<le> rangeStart \<or> rangeEndExclusive \<le> S)"
    using assms(3) by (rule ranges_disjoint)
  show "(computeEventSpan ev (Some rangeStart) (Some rangeEndExclusive) checkoutDates = None)
              = ({S..<E} \<inter> {rangeStart..<rangeEndExclusive} = {})"
    if "S < E"
    using that none disj by auto
  show "(renderCalendar_pill ev (Some rangeStart) (Some rangeEndExclusive) checkoutDates = None)
              = ({S..<E} \<inter> {rangeStart..<rangeEndExclusive} = {})"
    if h: "msPerDay dvd rangeStart \<and> msPerDay dvd rangeEndExclusive"
  proof -
    obtain s where s: "S = s * msPerDay"
      using parseDate_whole [OF assms(1)] by (rule whole_daysE)
    obtain e where e: "E = e * msPerDay"
      using parseDate_whole [OF assms(2)] by (rule whole_daysE)
    obtain a where a: "rangeStart = a * msPerDay"
      using h by (auto elim: whole_daysE)
    obtain b where b: "rangeEndExclusive = b * msPerDay"
      using h by (auto elim: whole_daysE)
    have "a < b"
      using assms(3) by (simp add: a b days_less)
    moreover note computeEventSpan_days [OF assms(1,2) [unfolded s e], of a b checkoutDates]
    ultimately show ?thesis
      unfolding disj unfolding s e a b renderCalendar_pill_def
      by (simp add: days_le)
  qed
qed

theorem outside_window_none_witness:
  "parseDate ''2026-01-20'' = Some 1768867200000
   \<and> parseDate ''2026-01-26'' = Some 1769385600000
   \<and> computeEventSpan
       \<lparr>uid = ''r3'', type' = ''reservation'', start = ''2026-01-20'', end' = ''2026-01-26'',
        summary = ''''\<rparr>
       (Some 1769385600000) (Some 1769990400000) []
     = None
   \<and> renderCalendar_pill
       \<lparr>uid = ''r3'', type' = ''reservation'', start = ''2026-01-20'', end' = ''2026-01-26'',
        summary = ''''\<rparr>
       (Some 1769385600000) (Some 1769990400000) []
     = None
   \<and> msPerDay dvd 1769385600000 \<and> msPerDay dvd 1769990400000
   \<and> {1768867200000..<1769385600000} \<inter> {1769385600000..<1769990400000} = ({} :: int set)"
proof -
  let ?r = "\<lparr>uid = ''r3'', type' = ''reservation'', start = ''2026-01-20'',
      end' = ''2026-01-26'', summary = ''''\<rparr>"
  have s: "parseDate (start ?r) = Some 1768867200000" by code_simp
  have e: "parseDate (end' ?r) = Some 1769385600000" by code_simp
  have w: "(1769385600000::int) < 1769990400000" by simp
  have lt: "(1768867200000::int) < 1769385600000" by simp
  have a1: "msPerDay dvd 1769385600000" by code_simp
  have a2: "msPerDay dvd 1769990400000" by code_simp
  have out: "(1769385600000::int) \<le> 1769385600000 \<or> (1769990400000::int) \<le> 1768867200000"
    by simp
  note T = outside_window_none [OF s e w, where checkoutDates = "[]"]
  from T out have n: "computeEventSpan ?r (Some 1769385600000) (Some 1769990400000) [] = None"
    by blast
  from T out have p: "renderCalendar_pill ?r (Some 1769385600000) (Some 1769990400000) [] = None"
    by blast
  from T a1 a2 p
  have i: "{1768867200000..<1769385600000} \<inter> {1769385600000..<1769990400000} = ({} :: int set)"
    by blast
  from T lt n
  have "{1768867200000..<1769385600000} \<inter> {1769385600000..<1769990400000} = ({} :: int set)"
    by blast
  from s e have "parseDate ''2026-01-20'' = Some 1768867200000"
    and "parseDate ''2026-01-26'' = Some 1769385600000" by simp_all
  with n p a1 a2 i show ?thesis by (intro conjI)
qed

text \<open>
  C9. An event whose type is neither \<open>reservation\<close> nor \<open>closed\<close> is projected as the same
  event with type \<open>reservation\<close> is, by \<^verbatim>\<open>computeEventSpan\<close>, by the pill of the rolling
  window and by the pill of a week row. The projection is a total function, and for such
  an event it is null only by the no-overlap test.
\<close>

theorem unknown_type_as_reservation:
  assumes "type' ev \<noteq> ''reservation''" and "type' ev \<noteq> ''closed''"
  shows "computeEventSpan ev rangeStart rangeEndExclusive checkoutDates =
           computeEventSpan (ev\<lparr>type' := ''reservation''\<rparr>) rangeStart rangeEndExclusive
             checkoutDates
       \<and> renderCalendar_pill ev rangeStart rangeEndExclusive checkoutDates =
           renderCalendar_pill (ev\<lparr>type' := ''reservation''\<rparr>) rangeStart rangeEndExclusive
             checkoutDates
       \<and> renderSingleProperty_pill ev weekStart checkoutDates =
           renderSingleProperty_pill (ev\<lparr>type' := ''reservation''\<rparr>) weekStart checkoutDates
       \<and> (computeEventSpan ev rangeStart rangeEndExclusive checkoutDates = None)
           = (num_le (parseDate (end' ev)) rangeStart \<or>
              num_ge (parseDate (start ev)) rangeEndExclusive)"
  using assms
  by (simp add: computeEventSpan_def renderCalendar_pill_def renderSingleProperty_pill_def
      renderSingleProperty_cols_def Let_def)

theorem unknown_type_as_reservation_witness:
  "computeEventSpan
     \<lparr>uid = ''u1'', type' = ''maintenance'', start = ''2026-01-30'', end' = ''2026-02-01'',
      summary = ''''\<rparr>
     (Some 1769385600000) (Some 1769990400000) []
   = computeEventSpan
     \<lparr>uid = ''u1'', type' = ''reservation'', start = ''2026-01-30'', end' = ''2026-02-01'',
      summary = ''''\<rparr>
     (Some 1769385600000) (Some 1769990400000) []
   \<and> computeEventSpan
     \<lparr>uid = ''u1'', type' = ''reservation'', start = ''2026-01-30'', end' = ''2026-02-01'',
      summary = ''''\<rparr>
     (Some 1769385600000) (Some 1769990400000) []
   = Some \<lparr>startHalf = Some 10, endHalf = Some 14\<rparr>"
proof -
  let ?u = "\<lparr>uid = ''u1'', type' = ''maintenance'', start = ''2026-01-30'',
      end' = ''2026-02-01'', summary = ''''\<rparr>"
  have t1: "type' ?u \<noteq> ''reservation''" by simp
  have t2: "type' ?u \<noteq> ''closed''" by simp
  have sp: "computeEventSpan
     \<lparr>uid = ''u1'', type' = ''reservation'', start = ''2026-01-30'', end' = ''2026-02-01'',
      summary = ''''\<rparr>
     (Some 1769385600000) (Some 1769990400000) []
   = Some \<lparr>startHalf = Some 10, endHalf = Some 14\<rparr>"
    by code_simp
  from unknown_type_as_reservation [OF t1 t2, where rangeStart = "Some 1769385600000"
      and rangeEndExclusive = "Some 1769990400000" and checkoutDates = "[]"]
  have "computeEventSpan ?u (Some 1769385600000) (Some 1769990400000) []
      = computeEventSpan (?u\<lparr>type' := ''reservation''\<rparr>)
          (Some 1769385600000) (Some 1769990400000) []"
    by blast
  then show ?thesis using sp by simp
qed

text \<open>
  C10 as stated: for every event, whenever \<^verbatim>\<open>computeEventSpan\<close> returns an interval, it has
  \<open>1 \<le> startHalf\<close> and \<open>endHalf \<le> totalHalves + 1\<close>. \<^verbatim>\<open>computeEventSpan\<close> does not look at
  whether the dates it parsed are valid: for a reservation whose start is the string
  \<open>abc\<close> and whose end is 2026-01-31, in the week from 2026-01-26, the start parses to the
  invalid date, every comparison with it is false, and the span returned has NaN for its
  start half, of which \<open>1 \<le> startHalf\<close> is false.
\<close>

theorem computeEventSpan_unparsed_counterexample:
  "parseDate ''abc'' = None
   \<and> computeEventSpan
       \<lparr>uid = ''u1'', type' = ''reservation'', start = ''abc'', end' = ''2026-01-31'',
        summary = ''''\<rparr>
       (parseDate ''2026-01-26'') (parseDate ''2026-02-02'') []
     = Some \<lparr>startHalf = None, endHalf = Some 12\<rparr>
   \<and> \<not> num_le (Some 1) (startHalf \<lparr>startHalf = None, endHalf = Some 12\<rparr>)"
  by (intro conjI; code_simp)

text \<open>
  C10, amended. For an event whose start and end strings parse to dates, whenever
  \<^verbatim>\<open>computeEventSpan\<close> returns an interval in a day-aligned window with
  \<open>rangeStart < rangeEndExclusive\<close>, whatever the checkout dates, its halves are numbers
  with \<open>1 \<le> startHalf\<close> and \<open>endHalf \<le> totalHalves + 1\<close>, where \<open>totalHalves\<close> is
  \<^verbatim>\<open>diffDays(rangeStart, rangeEndExclusive)\<close> times 2.
\<close>

theorem span_within_window:
  assumes "parseDate (start ev) = Some S" and "parseDate (end' ev) = Some E"
    and "rangeStart < rangeEndExclusive"
    and "msPerDay dvd rangeStart" and "msPerDay dvd rangeEndExclusive"
    and "computeEventSpan ev (Some rangeStart) (Some rangeEndExclusive) checkoutDates = Some sp"
  shows "\<exists>a b days. startHalf sp = Some a \<and> endHalf sp = Some b \<and>
           diffDays (Some rangeStart) (Some rangeEndExclusive) = Some days \<and>
           1 \<le> a \<and> b \<le> days * 2 + 1"
proof -
  obtain s where s: "S = s * msPerDay"
    using parseDate_whole [OF assms(1)] by (rule whole_daysE)
  obtain e where e: "E = e * msPerDay"
    using parseDate_whole [OF assms(2)] by (rule whole_daysE)
  obtain a where a: "rangeStart = a * msPerDay"
    using assms(4) by (rule whole_daysE)
  obtain b where b: "rangeEndExclusive = b * msPerDay"
    using assms(5) by (rule whole_daysE)
  have d: "diffDays (Some (a * msPerDay)) (Some (b * msPerDay)) = Some (b - a)"
    unfolding diffDays_def num_sub.simps by (rule roundDays_diff)
  have "a < b" using assms(3) by (simp add: a b days_less)
  moreover note computeEventSpan_days [OF assms(1,2) [unfolded s e], of a b checkoutDates]
  ultimately show ?thesis
    using assms(6) unfolding a b
    by (auto simp: d split: if_splits)
qed

theorem span_within_window_witness:
  "computeEventSpan
     \<lparr>uid = ''r1'', type' = ''reservation'', start = ''2026-01-30'', end' = ''2026-02-01'',
      summary = ''''\<rparr>
     (Some 1769385600000) (Some 1769990400000) []
   = Some \<lparr>startHalf = Some 10, endHalf = Some 14\<rparr>
   \<and> diffDays (Some 1769385600000) (Some 1769990400000) = Some 7
   \<and> (1::int) \<le> 10 \<and> (14::int) \<le> 7 * 2 + 1"
proof -
  let ?r = "\<lparr>uid = ''r1'', type' = ''reservation'', start = ''2026-01-30'',
      end' = ''2026-02-01'', summary = ''''\<rparr>"
  have s: "parseDate (start ?r) = Some 1769731200000" by code_simp
  have e: "parseDate (end' ?r) = Some 1769904000000" by code_simp
  have w: "(1769385600000::int) < 1769990400000" by simp
  have a1: "msPerDay dvd 1769385600000" by code_simp
  have a2: "msPerDay dvd 1769990400000" by code_simp
  have sp: "computeEventSpan ?r (Some 1769385600000) (Some 1769990400000) []
      = Some \<lparr>startHalf = Some 10, endHalf = Some 14\<rparr>"
    by code_simp
  from span_within_window [OF s e w a1 a2 sp]
  obtain a b days where "startHalf \<lparr>startHalf = Some 10, endHalf = Some 14\<rparr> = Some a"
    and "endHalf \<lparr>startHalf = Some 10, endHalf = Some 14\<rparr> = Some b"
    and "diffDays (Some 1769385600000) (Some 1769990400000) = Some days"
    and "1 \<le> a" and "b \<le> days * 2 + 1"
    by blast
  moreover have "diffDays (Some 1769385600000) (Some 1769990400000) = Some 7" by code_simp
  ultimately show ?thesis using sp by simp
qed

end
